theory Spec2Isabelle
  imports Main "HOL-Library.Char_ord" "HOL-Library.List_Lexorder" "HOL-Library.Multiset"
    "HOL-Library.Sublist"
begin

section \<open>The questionnaire response service (server.js)\<close>

text \<open>
  The repository holds three variants of one Express server over a single SQLite table
  \<open>responses\<close>. The handlers of the first variant (suffix \<open>_v1\<close>) and of the third,
  simplified variant (suffix \<open>_v3\<close>) are embedded here, over one model of the table and of
  the SQL statements the handlers issue. The second variant has the handlers of the first
  but for its statistics, which group the rows by day, and is not embedded.

  Conventions of the embedding:
  \<^item> a JavaScript value that is a string, \<open>null\<close> or \<open>undefined\<close> is a \<open>string option\<close>
    (\<open>None\<close> for \<open>null\<close>/\<open>undefined\<close>); an SQL value of a TEXT column is a
    \<open>string option\<close> too (\<open>None\<close> for NULL);
  \<^item> a string is a list of characters, not of the bytes of its UTF-8 encoding: an element
    of a \<open>string\<close> stands for one character (the type \<open>char\<close> holds those with a code below
    256), which is the unit SQLite's \<open>LIKE\<close> reads a text in;
  \<^item> \<open>req.params.id\<close> is taken as the integer that the store compares with the INTEGER
    key of the table;
  \<^item> the driver's \<open>err\<close> callback argument is decided by the environment: every statement
    takes a flag \<open>fault\<close> saying whether the driver reports an error for it, and a failed
    statement leaves the table as it was;
  \<^item> \<open>CURRENT_TIMESTAMP\<close> is a parameter \<open>now\<close>, the text \<open>YYYY-MM-DD HH:MM:SS\<close> the store
    writes; TEXT values compare bytewise, which for UTF-8 is the lexicographic order on the
    characters;
  \<^item> an HTTP response is its status code and its body.
\<close>

subsection \<open>The table\<close>

text \<open>The ten columns that the listing of variant 1 selects, in the table's order.\<close>

record listed_row =
  row_id :: int
  first_name :: "string option"
  email :: "string option"
  question_1 :: "string option"
  question_2 :: "string option"
  question_3 :: "string option"
  question_4 :: "string option"
  question_5 :: "string option"
  submitted_at :: string
  ip_address :: "string option"

text \<open>A full row of \<open>responses\<close>: the columns above and \<open>user_agent\<close>.\<close>

record row = listed_row +
  user_agent :: "string option"

text \<open>
  The store: the rows of \<open>responses\<close> in insertion order and the AUTOINCREMENT counter that
  SQLite keeps in \<open>sqlite_sequence\<close> (the largest key the table has ever held).
\<close>

record db =
  responses :: "row list"
  sqlite_sequence :: int

definition empty_db :: db where
  "empty_db = \<lparr>responses = [], sqlite_sequence = 0\<rparr>"

datatype db_error = SQLITE_IOERR | SQLITE_CONSTRAINT | SQLITE_FULL

definition max_rowid :: int where
  "max_rowid = 9223372036854775807"

text \<open>
  The driver hands \<open>this.lastID\<close> to the callback as a JavaScript number, which holds an
  integer exactly up to \<open>Number.MAX_SAFE_INTEGER\<close>, that is \<open>2^53 - 1\<close>. The model's \<open>lastID\<close> is
  the key as the store assigned it; what is proved of the key that a response returns is
  proved for keys in that range only.
\<close>

definition max_safe_integer :: int where
  "max_safe_integer = 9007199254740991"

text \<open>The largest key among the rows present (0 for the empty table).\<close>

definition largest_rowid :: "row list \<Rightarrow> int" where
  "largest_rowid rs = fold max (map row_id rs) 0"

text \<open>
  \<open>INSERT INTO responses (first_name, email, question_1, ..., question_5, ip_address,
  user_agent) VALUES (?, ?, ?, ?, ?, ?, ?, ?, ?)\<close>, run through \<open>db.run\<close>. The two NOT NULL
  columns reject NULL; the AUTOINCREMENT key is one more than the largest key ever used and
  the statement fails once the largest 64-bit key has been used; \<open>submitted_at\<close> takes its
  default. The result holds \<open>this.lastID\<close>.
\<close>

definition db_run_insert ::
  "bool \<Rightarrow> string \<Rightarrow> string option \<Rightarrow> string option \<Rightarrow> string option \<Rightarrow> string option \<Rightarrow>
   string option \<Rightarrow> string option \<Rightarrow> string option \<Rightarrow> string option \<Rightarrow> string option \<Rightarrow>
   db \<Rightarrow> db_error + (int \<times> db)" where
  "db_run_insert fault now fn em q1 q2 q3 q4 q5 ip ua d =
     (if fault then Inl SQLITE_IOERR
      else if fn = None \<or> em = None then Inl SQLITE_CONSTRAINT
      else let used = max (sqlite_sequence d) (largest_rowid (responses d)) in
        if max_rowid \<le> used then Inl SQLITE_FULL
        else let lastID = used + 1;
                 r = \<lparr>row_id = lastID, first_name = fn, email = em,
                      question_1 = q1, question_2 = q2, question_3 = q3,
                      question_4 = q4, question_5 = q5,
                      submitted_at = now, ip_address = ip, user_agent = ua\<rparr>
             in Inr (lastID, \<lparr>responses = responses d @ [r], sqlite_sequence = lastID\<rparr>))"

text \<open>
  \<open>ORDER BY submitted_at DESC\<close>: descending by the stored text. Rows with equal
  \<open>submitted_at\<close> come in the order of the table (ascending key), as the store returns them:
  \<open>sort_key\<close> is stable, so sorting the reversed table and reversing the result keeps them so.
\<close>

definition order_by_submitted_at_desc :: "row list \<Rightarrow> row list" where
  "order_by_submitted_at_desc rs = rev (sort_key submitted_at (rev rs))"

text \<open>\<open>SELECT * FROM responses ORDER BY submitted_at DESC\<close>, run through \<open>db.all\<close>.\<close>

definition db_all_ordered :: "bool \<Rightarrow> db \<Rightarrow> db_error + row list" where
  "db_all_ordered fault d =
     (if fault then Inl SQLITE_IOERR else Inr (order_by_submitted_at_desc (responses d)))"

text \<open>\<open>SELECT * FROM responses WHERE id = ?\<close>, run through \<open>db.get\<close>: the row or \<open>undefined\<close>.\<close>

definition db_get_by_id :: "bool \<Rightarrow> int \<Rightarrow> db \<Rightarrow> db_error + row option" where
  "db_get_by_id fault i d =
     (if fault then Inl SQLITE_IOERR else Inr (find (\<lambda>r. row_id r = i) (responses d)))"

text \<open>
  \<open>DELETE FROM responses WHERE id = ?\<close>, run through \<open>db.run\<close>. The result holds
  \<open>this.changes\<close>, the number of rows deleted. The counter in \<open>sqlite_sequence\<close> stays.
\<close>

definition db_run_delete :: "bool \<Rightarrow> int \<Rightarrow> db \<Rightarrow> db_error + (nat \<times> db)" where
  "db_run_delete fault i d =
     (if fault then Inl SQLITE_IOERR
      else Inr (length (filter (\<lambda>r. row_id r = i) (responses d)),
                d\<lparr>responses := filter (\<lambda>r. row_id r \<noteq> i) (responses d)\<rparr>))"

subsection \<open>Requests and responses\<close>

text \<open>
  The request of \<open>POST /api/submit-questionnaire\<close>: the seven fields read from \<open>req.body\<close> and
  what the handlers read from the request's context.
\<close>

record submit_request =
  firstName :: "string option"
  email_in :: "string option"
  question1 :: "string option"
  question2 :: "string option"
  question3 :: "string option"
  question4 :: "string option"
  question5 :: "string option"
  x_forwarded_for :: "string option"
  remote_address :: "string option"
  req_ip :: "string option"
  user_agent_header :: "string option"

text \<open>JavaScript truthiness of a string, \<open>null\<close> or \<open>undefined\<close>.\<close>

definition truthy :: "string option \<Rightarrow> bool" where
  "truthy v = (case v of None \<Rightarrow> False | Some s \<Rightarrow> s \<noteq> [])"

text \<open>\<open>a || b\<close> on such values.\<close>

definition js_or :: "string option \<Rightarrow> string option \<Rightarrow> string option" where
  "js_or a b = (if truthy a then a else b)"

text \<open>\<open>a || ''\<close> on such a value: the string, or the empty string.\<close>

definition js_or_empty :: "string option \<Rightarrow> string" where
  "js_or_empty a = (case js_or a (Some []) of None \<Rightarrow> [] | Some s \<Rightarrow> s)"

text \<open>\<open>${a}\<close> in a template literal, for a column of a row: \<open>null\<close> prints as \<open>null\<close>.\<close>

definition js_template :: "string option \<Rightarrow> string" where
  "js_template a = (case a of None \<Rightarrow> ''null'' | Some s \<Rightarrow> s)"

datatype body =
    Failure string
  | Saved int string
  | Listing nat "listed_row list"
  | Rows nat "row list"
  | Single row
  | Stats "(string \<times> nat) list"
  | Deleted string
  | Csv string
  | Text string

type_synonym response = "nat \<times> body"

subsection \<open>POST /api/submit-questionnaire\<close>

definition submit_questionnaire_v1 ::
  "bool \<Rightarrow> string \<Rightarrow> submit_request \<Rightarrow> db \<Rightarrow> response \<times> db" where
  "submit_questionnaire_v1 fault now req d =
     (let ipAddress = js_or (x_forwarded_for req) (remote_address req);
          userAgent = user_agent_header req
      in if \<not> truthy (firstName req) \<or> \<not> truthy (email_in req)
         then ((400, Failure ''First name and email are required''), d)
         else case db_run_insert fault now (firstName req) (email_in req)
                     (js_or (question1 req) None) (js_or (question2 req) None)
                     (js_or (question3 req) None) (js_or (question4 req) None)
                     (js_or (question5 req) None) ipAddress userAgent d of
                Inl err \<Rightarrow> ((500, Failure ''Failed to save response''), d)
              | Inr (lastID, d') \<Rightarrow> ((200, Saved lastID ''Response saved successfully''), d'))"

definition submit_questionnaire_v3 ::
  "bool \<Rightarrow> string \<Rightarrow> submit_request \<Rightarrow> db \<Rightarrow> response \<times> db" where
  "submit_questionnaire_v3 fault now req d =
     (if \<not> truthy (firstName req) \<or> \<not> truthy (email_in req)
      then ((400, Failure ''First name and email are required''), d)
      else let ip = js_or (req_ip req) (remote_address req);
               userAgent = user_agent_header req
           in case db_run_insert fault now (firstName req) (email_in req)
                     (question1 req) (question2 req) (question3 req) (question4 req)
                     (question5 req) ip userAgent d of
                Inl err \<Rightarrow> ((500, Failure ''Failed to save response''), d)
              | Inr (lastID, d') \<Rightarrow> ((200, Saved lastID ''Response saved successfully''), d'))"

subsection \<open>GET /api/responses and GET /api/responses/:id\<close>

text \<open>
  Variant 1 selects the ten listed columns, \<open>ORDER BY submitted_at DESC\<close>; variant 3
  selects \<open>*\<close>.
\<close>

definition db_all_listed :: "bool \<Rightarrow> db \<Rightarrow> db_error + listed_row list" where
  "db_all_listed fault d =
     (if fault then Inl SQLITE_IOERR
      else Inr (map listed_row.truncate (order_by_submitted_at_desc (responses d))))"

definition list_responses_v1 :: "bool \<Rightarrow> db \<Rightarrow> response" where
  "list_responses_v1 fault d =
     (case db_all_listed fault d of
        Inl err \<Rightarrow> (500, Failure ''Failed to fetch responses'')
      | Inr rows \<Rightarrow> (200, Listing (length rows) rows))"

definition list_responses_v3 :: "bool \<Rightarrow> db \<Rightarrow> response" where
  "list_responses_v3 fault d =
     (case db_all_ordered fault d of
        Inl err \<Rightarrow> (500, Failure ''Failed to fetch responses'')
      | Inr rows \<Rightarrow> (200, Rows (length rows) rows))"

definition get_response_v1 :: "bool \<Rightarrow> int \<Rightarrow> db \<Rightarrow> response" where
  "get_response_v1 fault i d =
     (case db_get_by_id fault i d of
        Inl err \<Rightarrow> (500, Failure ''Failed to fetch response'')
      | Inr None \<Rightarrow> (404, Failure ''Response not found'')
      | Inr (Some r) \<Rightarrow> (200, Single r))"

subsection \<open>GET /api/stats\<close>

text \<open>\<open>DATE(x)\<close> of a timestamp text \<open>YYYY-MM-DD HH:MM:SS\<close>: its first ten characters.\<close>

definition sql_date :: "string \<Rightarrow> string" where
  "sql_date ts = take 10 ts"

definition count_total :: "db \<Rightarrow> nat" where
  "count_total d = length (responses d)"

definition count_today :: "string \<Rightarrow> db \<Rightarrow> nat" where
  "count_today now d =
     length (filter (\<lambda>r. sql_date (submitted_at r) = sql_date now) (responses d))"

text \<open>\<open>COUNT(DISTINCT email)\<close> counts the distinct values that are not NULL.\<close>

definition count_distinct_email :: "db \<Rightarrow> nat" where
  "count_distinct_email d =
     length (remdups (concat (map (\<lambda>r. case email r of None \<Rightarrow> [] | Some e \<Rightarrow> [e])
       (responses d))))"

text \<open>One aggregate statement run through \<open>db.get\<close>: \<open>row.count\<close>, or the driver's error.\<close>

definition db_get_count :: "bool \<Rightarrow> nat \<Rightarrow> db_error + nat" where
  "db_get_count fault n = (if fault then Inl SQLITE_IOERR else Inr n)"

text \<open>
  Variant 1 runs the three statements of \<open>queries\<close> and stores \<open>row.count\<close> under the key
  only \<open>if (!err)\<close>; once all three callbacks have run it answers \<open>success: true\<close>.
\<close>

definition stats_v1 :: "bool \<Rightarrow> bool \<Rightarrow> bool \<Rightarrow> string \<Rightarrow> db \<Rightarrow> response" where
  "stats_v1 f_total f_today f_unique now d =
     (let queries = [(''total'', db_get_count f_total (count_total d)),
                     (''today'', db_get_count f_today (count_today now d)),
                     (''uniqueEmails'', db_get_count f_unique (count_distinct_email d))];
          stats = fold (\<lambda>(key, res) stats.
                          case res of Inl err \<Rightarrow> stats | Inr cnt \<Rightarrow> stats @ [(key, cnt)])
                    queries []
      in (200, Stats stats))"

text \<open>Variant 3 nests the three statements and returns status 500 at the first error.\<close>

definition stats_v3 :: "bool \<Rightarrow> bool \<Rightarrow> bool \<Rightarrow> string \<Rightarrow> db \<Rightarrow> response" where
  "stats_v3 f_total f_today f_unique now d =
     (case db_get_count f_total (count_total d) of
        Inl err \<Rightarrow> (500, Failure ''Database error'')
      | Inr totalResult \<Rightarrow>
          (case db_get_count f_today (count_today now d) of
             Inl err \<Rightarrow> (500, Failure ''Database error'')
           | Inr todayResult \<Rightarrow>
               (case db_get_count f_unique (count_distinct_email d) of
                  Inl err \<Rightarrow> (500, Failure ''Database error'')
                | Inr uniqueResult \<Rightarrow>
                    (200, Stats [(''totalResponses'', totalResult),
                                 (''todayResponses'', todayResult),
                                 (''uniqueEmails'', uniqueResult)]))))"

subsection \<open>DELETE /api/responses/:id\<close>

definition delete_response_v1 :: "bool \<Rightarrow> int \<Rightarrow> db \<Rightarrow> response \<times> db" where
  "delete_response_v1 fault i d =
     (case db_run_delete fault i d of
        Inl err \<Rightarrow> ((500, Failure ''Failed to delete response''), d)
      | Inr (changes, d') \<Rightarrow>
          if changes = 0 then ((404, Failure ''Response not found''), d')
          else ((200, Deleted ''Response deleted successfully''), d'))"

text \<open>Variant 3 does not read \<open>this.changes\<close>.\<close>

definition delete_response_v3 :: "bool \<Rightarrow> int \<Rightarrow> db \<Rightarrow> response \<times> db" where
  "delete_response_v3 fault i d =
     (case db_run_delete fault i d of
        Inl err \<Rightarrow> ((500, Failure ''Failed to delete response''), d)
      | Inr (changes, d') \<Rightarrow> ((200, Deleted ''Response deleted successfully''), d'))"

subsection \<open>GET /api/search\<close>

text \<open>SQLite's \<open>LIKE\<close> folds the case of the 26 ASCII letters only.\<close>

definition ascii_lower :: "char \<Rightarrow> char" where
  "ascii_lower c =
     (case map_of (zip ''ABCDEFGHIJKLMNOPQRSTUVWXYZ'' ''abcdefghijklmnopqrstuvwxyz'') c of
        None \<Rightarrow> c
      | Some l \<Rightarrow> l)"

text \<open>
  SQLite's pattern comparison with no ESCAPE clause: \<open>%\<close> in the pattern matches any run of
  characters (also none), \<open>_\<close> matches any one character, any other character matches
  itself up to ASCII case. The pattern is the first argument.
\<close>

fun pattern_compare :: "string \<Rightarrow> string \<Rightarrow> bool" where
  "pattern_compare [] s = (s = [])"
| "pattern_compare (p # ps) [] = (p = CHR ''%'' \<and> pattern_compare ps [])"
| "pattern_compare (p # ps) (c # cs) =
     (if p = CHR ''%'' then pattern_compare ps (c # cs) \<or> pattern_compare (p # ps) cs
      else (p = CHR ''_'' \<or> ascii_lower p = ascii_lower c) \<and> pattern_compare ps cs)"

text \<open>
  The comparison reads the pattern and the text as C strings: each ends at its first NUL
  character, whatever follows it.
\<close>

definition c_string :: "string \<Rightarrow> string" where
  "c_string s = takeWhile (\<lambda>c. c \<noteq> CHR 0x00) s"

text \<open>\<open>text LIKE pattern\<close>. The pattern is the first argument.\<close>

definition sql_like :: "string \<Rightarrow> string \<Rightarrow> bool" where
  "sql_like pattern s = pattern_compare (c_string pattern) (c_string s)"

text \<open>\<open>column LIKE ?\<close> in a WHERE clause: NULL in the column does not select the row.\<close>

definition column_like :: "string \<Rightarrow> string option \<Rightarrow> bool" where
  "column_like pattern v = (case v of None \<Rightarrow> False | Some s \<Rightarrow> sql_like pattern s)"

text \<open>
  \<open>SELECT * FROM responses WHERE first_name LIKE ? OR email LIKE ? ORDER BY submitted_at
  DESC\<close>, run through \<open>db.all\<close> with the same pattern bound twice.
\<close>

definition db_all_search :: "bool \<Rightarrow> string \<Rightarrow> db \<Rightarrow> db_error + row list" where
  "db_all_search fault pattern d =
     (if fault then Inl SQLITE_IOERR
      else Inr (order_by_submitted_at_desc
                 (filter (\<lambda>r. column_like pattern (first_name r) \<or> column_like pattern (email r))
                    (responses d))))"

text \<open>
  Variant 1: \<open>if (!query)\<close> answers 400; otherwise \<open>query\<close> is a non-empty string and the
  pattern is \<open>`%${query}%`\<close>.
\<close>

definition search_v1 :: "bool \<Rightarrow> string option \<Rightarrow> db \<Rightarrow> response" where
  "search_v1 fault query d =
     (case query of
        None \<Rightarrow> (400, Failure ''Search query is required'')
      | Some q \<Rightarrow>
          if q = [] then (400, Failure ''Search query is required'')
          else let searchPattern = ''%'' @ q @ ''%'' in
            (case db_all_search fault searchPattern d of
               Inl err \<Rightarrow> (500, Failure ''Search failed'')
             | Inr rows \<Rightarrow> (200, Rows (length rows) rows)))"

text \<open>Variant 3: \<open>const query = req.query.query || ''\<close>, and no check.\<close>

definition search_v3 :: "bool \<Rightarrow> string option \<Rightarrow> db \<Rightarrow> response" where
  "search_v3 fault query_param d =
     (let query = js_or_empty query_param in
      case db_all_search fault (''%'' @ query @ ''%'') d of
        Inl err \<Rightarrow> (500, Failure ''Search failed'')
      | Inr rows \<Rightarrow> (200, Rows (length rows) rows))"

text \<open>
  The spec's words for the match: the query is a substring of the text, up to ASCII case.
\<close>

definition contains_ci :: "string \<Rightarrow> string option \<Rightarrow> bool" where
  "contains_ci q v =
     (case v of None \<Rightarrow> False
      | Some s \<Rightarrow> sublist (map ascii_lower q) (map ascii_lower s))"

text \<open>A value of a TEXT column that holds no NUL character.\<close>

definition no_nul :: "string option \<Rightarrow> bool" where
  "no_nul v = (case v of None \<Rightarrow> True | Some s \<Rightarrow> CHR 0x00 \<notin> set s)"

text \<open>The query as a literal substring of the text, case and all.\<close>

definition contains_literal :: "string \<Rightarrow> string option \<Rightarrow> bool" where
  "contains_literal q v = (case v of None \<Rightarrow> False | Some s \<Rightarrow> sublist q s)"

subsection \<open>GET /api/export/csv\<close>

text \<open>\<open>${row.id}\<close>: the decimal digits of an integer.\<close>

definition digit_char :: "nat \<Rightarrow> char" where
  "digit_char n = ''0123456789'' ! n"

fun show_nat :: "nat \<Rightarrow> string" where
  "show_nat n = (if n < 10 then [digit_char n] else show_nat (n div 10) @ [digit_char (n mod 10)])"

declare show_nat.simps [simp del]

definition show_int :: "int \<Rightarrow> string" where
  "show_int i = (if i < 0 then CHR ''-'' # show_nat (nat (- i)) else show_nat (nat i))"

definition LF :: char where
  "LF = CHR 0x0A"

definition quoted :: "string \<Rightarrow> string" where
  "quoted s = CHR 0x22 # s @ [CHR 0x22]"

definition csv_header_v1 :: string where
  "csv_header_v1 =
     ''ID,First Name,Email,Question 1,Question 2,Question 3,Question 4,Question 5,Submitted At,IP Address'' @ [LF]"

definition csv_header_v3 :: string where
  "csv_header_v3 =
     ''ID,First Name,Email,Question 1,Question 2,Question 3,Question 4,Question 5,Submitted At,IP Address,User Agent'' @ [LF]"

text \<open>The template literal that variant 1 appends for each row.\<close>

definition csv_line_v1 :: "'a listed_row_scheme \<Rightarrow> string" where
  "csv_line_v1 r =
     show_int (row_id r) @ '','' @ quoted (js_template (first_name r)) @ '','' @
     quoted (js_template (email r)) @ '','' @
     quoted (js_or_empty (question_1 r)) @ '','' @ quoted (js_or_empty (question_2 r)) @ '','' @
     quoted (js_or_empty (question_3 r)) @ '','' @ quoted (js_or_empty (question_4 r)) @ '','' @
     quoted (js_or_empty (question_5 r)) @ '','' @ quoted (submitted_at r) @ '','' @
     quoted (js_template (ip_address r)) @ [LF]"

text \<open>The template literal of variant 3: two more \<open>|| ''\<close> and the \<open>user_agent\<close> column.\<close>

definition csv_line_v3 :: "row \<Rightarrow> string" where
  "csv_line_v3 r =
     show_int (row_id r) @ '','' @ quoted (js_template (first_name r)) @ '','' @
     quoted (js_template (email r)) @ '','' @
     quoted (js_or_empty (question_1 r)) @ '','' @ quoted (js_or_empty (question_2 r)) @ '','' @
     quoted (js_or_empty (question_3 r)) @ '','' @ quoted (js_or_empty (question_4 r)) @ '','' @
     quoted (js_or_empty (question_5 r)) @ '','' @ quoted (submitted_at r) @ '','' @
     quoted (js_or_empty (ip_address r)) @ '','' @ quoted (js_or_empty (user_agent r)) @ [LF]"

definition export_csv_v1 :: "bool \<Rightarrow> db \<Rightarrow> response" where
  "export_csv_v1 fault d =
     (case db_all_ordered fault d of
        Inl err \<Rightarrow> (500, Failure ''Export failed'')
      | Inr rows \<Rightarrow> (200, Csv (fold (\<lambda>r csv. csv @ csv_line_v1 r) rows csv_header_v1)))"

definition export_csv_v3 :: "bool \<Rightarrow> db \<Rightarrow> response" where
  "export_csv_v3 fault d =
     (case db_all_ordered fault d of
        Inl err \<Rightarrow> (500, Text ''Export failed'')
      | Inr rows \<Rightarrow> (200, Csv (fold (\<lambda>r csv. csv @ csv_line_v3 r) rows csv_header_v3)))"

text \<open>
  The spec's words for one exported row: the key, then every other exported column
  enclosed in double quotes, NULL as the empty string, separated by commas.
\<close>

definition null_as_empty :: "string option \<Rightarrow> string" where
  "null_as_empty v = (case v of None \<Rightarrow> [] | Some s \<Rightarrow> s)"

fun join_commas :: "string list \<Rightarrow> string" where
  "join_commas [] = []"
| "join_commas [x] = x"
| "join_commas (x # y # ys) = x @ '','' @ join_commas (y # ys)"

text \<open>The titles of the exported columns: ten in variant 1, eleven in variant 3.\<close>

definition column_titles_v1 :: "string list" where
  "column_titles_v1 =
     [''ID'', ''First Name'', ''Email'', ''Question 1'', ''Question 2'', ''Question 3'',
      ''Question 4'', ''Question 5'', ''Submitted At'', ''IP Address'']"

definition column_titles_v3 :: "string list" where
  "column_titles_v3 = column_titles_v1 @ [''User Agent'']"

text \<open>The exported text columns of a row, NULL as the empty string.\<close>

definition text_columns_v1 :: "'a listed_row_scheme \<Rightarrow> string list" where
  "text_columns_v1 r =
     [null_as_empty (first_name r), null_as_empty (email r),
      null_as_empty (question_1 r), null_as_empty (question_2 r), null_as_empty (question_3 r),
      null_as_empty (question_4 r), null_as_empty (question_5 r),
      submitted_at r, null_as_empty (ip_address r)]"

definition text_columns_v3 :: "row \<Rightarrow> string list" where
  "text_columns_v3 r = text_columns_v1 r @ [null_as_empty (user_agent r)]"

definition csv_record_v1 :: "'a listed_row_scheme \<Rightarrow> string" where
  "csv_record_v1 r = join_commas (show_int (row_id r) # map quoted (text_columns_v1 r))"

definition csv_record_v3 :: "row \<Rightarrow> string" where
  "csv_record_v3 r = join_commas (show_int (row_id r) # map quoted (text_columns_v3 r))"

text \<open>The lines of a document, each ended by a line feed (a last line may lack it).\<close>

fun csv_lines :: "string \<Rightarrow> string list" where
  "csv_lines [] = []"
| "csv_lines (c # cs) =
     (if c = LF then [] # csv_lines cs
      else (case csv_lines cs of [] \<Rightarrow> [[c]] | l # ls \<Rightarrow> (c # l) # ls))"

subsection \<open>Sequences of requests\<close>

text \<open>The two requests that change the table, with what the environment decides for each.\<close>

datatype op = Submit bool string submit_request | Delete bool int

fun apply_op_v1 :: "op \<Rightarrow> db \<Rightarrow> db" where
  "apply_op_v1 (Submit fault now req) d = snd (submit_questionnaire_v1 fault now req d)"
| "apply_op_v1 (Delete fault i) d = snd (delete_response_v1 fault i d)"

definition run_v1 :: "op list \<Rightarrow> db \<Rightarrow> db" where
  "run_v1 ops d = fold apply_op_v1 ops d"

text \<open>A submission that passes the validation and that the store does not fail.\<close>

fun valid_submit :: "op \<Rightarrow> bool" where
  "valid_submit (Submit fault now req) =
     (\<not> fault \<and> truthy (firstName req) \<and> truthy (email_in req))"
| "valid_submit (Delete fault i) = False"

text \<open>
  What the schema and the handlers keep true of the table: the primary key is unique,
  keys are positive and never above the AUTOINCREMENT counter, and the two NOT NULL columns
  hold non-empty text.
\<close>

definition table_inv :: "db \<Rightarrow> bool" where
  "table_inv d =
     (distinct (map row_id (responses d)) \<and> 0 \<le> sqlite_sequence d \<and>
      (\<forall>r \<in> set (responses d).
         0 < row_id r \<and> row_id r \<le> sqlite_sequence d \<and>
         truthy (first_name r) \<and> truthy (email r)))"

subsection \<open>Example data\<close>

definition ana :: submit_request where
  "ana = \<lparr>firstName = Some ''Ana'', email_in = Some ''a@x.com'',
          question1 = None, question2 = None, question3 = None, question4 = None,
          question5 = None, x_forwarded_for = None, remote_address = Some ''10.0.0.7'',
          req_ip = Some ''10.0.0.7'', user_agent_header = Some ''curl/8.5.0''\<rparr>"

definition ana_row :: row where
  "ana_row = \<lparr>row_id = 1, first_name = Some ''Ana'', email = Some ''a@x.com'',
              question_1 = None, question_2 = None, question_3 = None, question_4 = None,
              question_5 = None, submitted_at = ''2024-05-01 10:00:00'',
              ip_address = Some ''10.0.0.7'', user_agent = Some ''curl/8.5.0''\<rparr>"

definition ana_db :: db where
  "ana_db = \<lparr>responses = [ana_row], sqlite_sequence = 1\<rparr>"

definition ben :: submit_request where
  "ben = \<lparr>firstName = Some ''Ben'', email_in = Some ''ben@y.org'',
          question1 = Some ''yes'', question2 = Some [], question3 = None, question4 = None,
          question5 = None, x_forwarded_for = Some ''203.0.113.9'',
          remote_address = Some ''10.0.0.1'', req_ip = Some ''10.0.0.1'',
          user_agent_header = None\<rparr>"

definition ben_row :: row where
  "ben_row = \<lparr>row_id = 2, first_name = Some ''Ben'', email = Some ''ben@y.org'',
              question_1 = Some ''yes'', question_2 = None, question_3 = None,
              question_4 = None, question_5 = None, submitted_at = ''2024-05-02 08:15:00'',
              ip_address = Some ''203.0.113.9'', user_agent = None\<rparr>"

definition two_db :: db where
  "two_db = \<lparr>responses = [ana_row, ben_row], sqlite_sequence = 2\<rparr>"

text \<open>A row whose name holds a NUL character.\<close>

definition nul_row :: row where
  "nul_row = \<lparr>row_id = 1, first_name = Some (''A'' @ [CHR 0x00] @ ''na''),
              email = Some ''n@x.com'', question_1 = None, question_2 = None,
              question_3 = None, question_4 = None, question_5 = None,
              submitted_at = ''2024-05-01 10:00:00'', ip_address = Some ''10.0.0.7'',
              user_agent = None\<rparr>"

definition nul_db :: db where
  "nul_db = \<lparr>responses = [nul_row], sqlite_sequence = 1\<rparr>"

text \<open>A row whose name holds a line feed.\<close>

definition eva_row :: row where
  "eva_row = \<lparr>row_id = 1, first_name = Some (''Eva'' @ [LF] @ ''Lee''), email = Some ''e@x.com'',
              question_1 = None, question_2 = None, question_3 = None, question_4 = None,
              question_5 = None, submitted_at = ''2024-05-01 10:00:00'',
              ip_address = Some ''10.0.0.7'', user_agent = None\<rparr>"

definition eva_db :: db where
  "eva_db = \<lparr>responses = [eva_row], sqlite_sequence = 1\<rparr>"

section \<open>Submission\<close>

text \<open>
  C5. A submission whose \<open>firstName\<close> or \<open>email\<close> is missing or empty is answered with
  status 400 and the table is left as it was, in both variants and whatever the store would
  have done.
\<close>

theorem submit_rejects_missing_required:
  assumes "firstName req = None \<or> firstName req = Some [] \<or>
           email_in req = None \<or> email_in req = Some []"
  shows "submit_questionnaire_v1 fault now req d =
           ((400, Failure ''First name and email are required''), d) \<and>
         submit_questionnaire_v3 fault now req d =
           ((400, Failure ''First name and email are required''), d)"
  using assms
  by (auto simp: submit_questionnaire_v1_def submit_questionnaire_v3_def truthy_def
      split: option.splits)

theorem submit_rejects_missing_required_witness:
  "submit_questionnaire_v1 False ''2024-05-02 09:30:00'' (ana\<lparr>email_in := Some []\<rparr>) ana_db =
     ((400, Failure ''First name and email are required''), ana_db) \<and>
   submit_questionnaire_v3 False ''2024-05-02 09:30:00'' (ana\<lparr>email_in := Some []\<rparr>) ana_db =
     ((400, Failure ''First name and email are required''), ana_db)"
  using submit_rejects_missing_required
    [of "ana\<lparr>email_in := Some []\<rparr>" False "''2024-05-02 09:30:00''" ana_db]
  by simp

section \<open>Submission and lookup\<close>

lemma fold_max_ge_init: "(a::int) \<le> fold max xs a"
proof (induction xs arbitrary: a)
  case Nil
  show ?case by simp
next
  case (Cons x xs)
  have "a \<le> max x a" by simp
  also have "\<dots> \<le> fold max xs (max x a)" by (rule Cons.IH)
  finally show ?case by simp
qed

lemma fold_max_ge_elem: "x \<in> set xs \<Longrightarrow> (x::int) \<le> fold max xs a"
proof (induction xs arbitrary: a)
  case Nil
  then show ?case by simp
next
  case (Cons y ys)
  show ?case
  proof (cases "x = y")
    case True
    have "x \<le> max y a" using True by simp
    also have "\<dots> \<le> fold max ys (max y a)" by (rule fold_max_ge_init)
    finally show ?thesis by simp
  next
    case False
    with Cons.prems have "x \<in> set ys" by simp
    then show ?thesis using Cons.IH by simp
  qed
qed

lemma largest_rowid_ge: "r \<in> set rs \<Longrightarrow> row_id r \<le> largest_rowid rs"
  unfolding largest_rowid_def by (rule fold_max_ge_elem) simp

text \<open>What a submission that is answered with a key has done.\<close>

lemma submit_v1_saved:
  assumes "submit_questionnaire_v1 fault now req d = ((200, Saved i msg), d')"
  shows "truthy (firstName req) \<and> truthy (email_in req) \<and> \<not> fault \<and>
         i = max (sqlite_sequence d) (largest_rowid (responses d)) + 1 \<and> i \<le> max_rowid \<and>
         sqlite_sequence d' = i \<and>
         (\<exists>r. responses d' = responses d @ [r] \<and> row_id r = i \<and>
              first_name r = firstName req \<and> email r = email_in req \<and> submitted_at r = now)"
  using assms
  by (auto simp: submit_questionnaire_v1_def db_run_insert_def Let_def truthy_def
      split: if_splits option.splits)

lemma submit_v1_cases:
  "(\<exists>i msg. fst (submit_questionnaire_v1 fault now req d) = (200, Saved i msg)) \<or>
   snd (submit_questionnaire_v1 fault now req d) = d"
  by (auto simp: submit_questionnaire_v1_def db_run_insert_def Let_def split: if_splits)

lemma submit_v1_accepts:
  assumes "truthy (firstName req)" "truthy (email_in req)" "\<not> fault"
    and "max (sqlite_sequence d) (largest_rowid (responses d)) < max_rowid"
  shows "\<exists>i d'. submit_questionnaire_v1 fault now req d =
           ((200, Saved i ''Response saved successfully''), d')"
  using assms
  by (auto simp: submit_questionnaire_v1_def db_run_insert_def Let_def truthy_def
      split: option.splits)

lemma find_append_new:
  assumes "\<forall>x \<in> set rs. \<not> P x" "P r"
  shows "find P (rs @ [r]) = Some r"
  using assms by (induction rs) auto

lemma find_distinct_key:
  assumes "r \<in> set rs" "distinct (map f rs)"
  shows "find (\<lambda>x. f x = f r) rs = Some r"
  using assms by (induction rs) (auto simp: image_iff)

lemma submit_ana_empty:
  "submit_questionnaire_v1 False ''2024-05-01 10:00:00'' ana empty_db =
     ((200, Saved 1 ''Response saved successfully''), ana_db)"
  by (simp add: submit_questionnaire_v1_def ana_def empty_db_def ana_db_def ana_row_def
      db_run_insert_def truthy_def js_or_def largest_rowid_def max_rowid_def)

text \<open>
  C6, for keys that a JavaScript number holds exactly. A submission with non-empty
  \<open>firstName\<close> and \<open>email\<close> is answered with a key when the store does not fail and the
  keys used so far are below \<open>2^53 - 1\<close>, and that key is at most \<open>2^53 - 1\<close>; whenever a
  submission is answered with a key of at most \<open>2^53 - 1\<close>, looking that key up right after
  gives a row with the submitted \<open>first_name\<close> and \<open>email\<close>. Looking up a key that no row
  has gives 404, and looking up the key of a row of a table whose keys are distinct (it is
  the primary key) gives that row.
\<close>

theorem submit_then_get_by_id:
  "(truthy (firstName req) \<and> truthy (email_in req) \<and> \<not> fault \<and>
      max (sqlite_sequence d) (largest_rowid (responses d)) < max_safe_integer \<longrightarrow>
      (\<exists>i d'. submit_questionnaire_v1 fault now req d =
                 ((200, Saved i ''Response saved successfully''), d') \<and>
              i \<le> max_safe_integer)) \<and>
   (submit_questionnaire_v1 fault now req d = ((200, Saved i msg), d') \<and>
      i \<le> max_safe_integer \<longrightarrow>
      (\<exists>r. get_response_v1 False i d' = (200, Single r) \<and> row_id r = i \<and>
           first_name r = firstName req \<and> email r = email_in req)) \<and>
   ((\<forall>r \<in> set (responses t). row_id r \<noteq> j) \<longrightarrow>
      get_response_v1 False j t = (404, Failure ''Response not found'')) \<and>
   (r \<in> set (responses t) \<and> distinct (map row_id (responses t)) \<longrightarrow>
      get_response_v1 False (row_id r) t = (200, Single r))"
proof (intro conjI impI)
  assume h: "truthy (firstName req) \<and> truthy (email_in req) \<and> \<not> fault \<and>
      max (sqlite_sequence d) (largest_rowid (responses d)) < max_safe_integer"
  then have "max (sqlite_sequence d) (largest_rowid (responses d)) < max_rowid"
    by (simp add: max_safe_integer_def max_rowid_def)
  with h obtain k d' where
    s: "submit_questionnaire_v1 fault now req d =
          ((200, Saved k ''Response saved successfully''), d')"
    using submit_v1_accepts by blast
  from submit_v1_saved [OF s] h have "k \<le> max_safe_integer"
    by (auto simp: max_def)
  with s show "\<exists>i d'. submit_questionnaire_v1 fault now req d =
                 ((200, Saved i ''Response saved successfully''), d') \<and>
              i \<le> max_safe_integer"
    by blast
next
  assume "submit_questionnaire_v1 fault now req d = ((200, Saved i msg), d') \<and>
      i \<le> max_safe_integer"
  then have a: "submit_questionnaire_v1 fault now req d = ((200, Saved i msg), d')"
    by simp
  from submit_v1_saved [OF a] obtain r where
    i: "i = max (sqlite_sequence d) (largest_rowid (responses d)) + 1"
    and r: "responses d' = responses d @ [r]" "row_id r = i"
      "first_name r = firstName req" "email r = email_in req"
    by blast
  have "\<forall>x \<in> set (responses d). row_id x \<noteq> i"
    using largest_rowid_ge i by fastforce
  then have "find (\<lambda>x. row_id x = i) (responses d') = Some r"
    using r by (simp add: find_append_new)
  then show "\<exists>r. get_response_v1 False i d' = (200, Single r) \<and> row_id r = i \<and>
           first_name r = firstName req \<and> email r = email_in req"
    using r by (simp add: get_response_v1_def db_get_by_id_def)
next
  assume "\<forall>r \<in> set (responses t). row_id r \<noteq> j"
  then have "find (\<lambda>x. row_id x = j) (responses t) = None"
    by (simp add: find_None_iff)
  then show "get_response_v1 False j t = (404, Failure ''Response not found'')"
    by (simp add: get_response_v1_def db_get_by_id_def)
next
  assume "r \<in> set (responses t) \<and> distinct (map row_id (responses t))"
  then have "find (\<lambda>x. row_id x = row_id r) (responses t) = Some r"
    by (simp add: find_distinct_key)
  then show "get_response_v1 False (row_id r) t = (200, Single r)"
    by (simp add: get_response_v1_def db_get_by_id_def)
qed

theorem submit_then_get_by_id_witness:
  "submit_questionnaire_v1 False ''2024-05-01 10:00:00'' ana empty_db =
     ((200, Saved 1 ''Response saved successfully''), ana_db) \<and>
   get_response_v1 False 1 ana_db = (200, Single ana_row) \<and>
   first_name ana_row = firstName ana \<and> email ana_row = email_in ana \<and>
   get_response_v1 False 2 ana_db = (404, Failure ''Response not found'')"
proof -
  note t = submit_then_get_by_id [of ana False empty_db "''2024-05-01 10:00:00''" 1
      "''Response saved successfully''" ana_db ana_db 2 ana_row]
  have h1: "truthy (firstName ana) \<and> truthy (email_in ana) \<and> \<not> False \<and>
      max (sqlite_sequence empty_db) (largest_rowid (responses empty_db)) < max_safe_integer"
    by (simp add: ana_def truthy_def empty_db_def largest_rowid_def max_safe_integer_def)
  have h2: "submit_questionnaire_v1 False ''2024-05-01 10:00:00'' ana empty_db =
      ((200, Saved 1 ''Response saved successfully''), ana_db) \<and> 1 \<le> max_safe_integer"
    by (simp add: submit_ana_empty max_safe_integer_def)
  have h3: "\<forall>r \<in> set (responses ana_db). row_id r \<noteq> 2"
    by (simp add: ana_db_def ana_row_def)
  have h4: "ana_row \<in> set (responses ana_db) \<and> distinct (map row_id (responses ana_db))"
    by (simp add: ana_db_def)
  have k: "row_id ana_row = 1" "first_name ana_row = firstName ana"
    "email ana_row = email_in ana"
    by (simp_all add: ana_row_def ana_def)
  from t h3 have "get_response_v1 False 2 ana_db = (404, Failure ''Response not found'')"
    by blast
  moreover from t h4 k have "get_response_v1 False 1 ana_db = (200, Single ana_row)"
    by simp
  moreover from t h1 have "\<exists>i d'. submit_questionnaire_v1 False ''2024-05-01 10:00:00'' ana empty_db =
      ((200, Saved i ''Response saved successfully''), d') \<and> i \<le> max_safe_integer"
    by blast
  moreover from t h2 have "\<exists>r. get_response_v1 False 1 ana_db = (200, Single r) \<and> row_id r = 1 \<and>
      first_name r = firstName ana \<and> email r = email_in ana"
    by blast
  ultimately show ?thesis
    using k submit_ana_empty by simp
qed

section \<open>Statistics\<close>

lemma count_distinct_email_card:
  "count_distinct_email d = card {e. \<exists>r \<in> set (responses d). email r = Some e}"
proof -
  have "set (concat (map (\<lambda>r. case email r of None \<Rightarrow> [] | Some e \<Rightarrow> [e]) rs)) =
        {e. \<exists>r \<in> set rs. email r = Some e}" for rs :: "row list"
    by (induction rs) (auto split: option.splits)
  then show ?thesis
    unfolding count_distinct_email_def by (metis length_remdups_card_conv)
qed

text \<open>
  C1, as the code has it. In variant 3 the response fails with status 500 as soon as one of
  the three aggregate statements fails, and with no failure it holds the three aggregates:
  the number of rows, the number of rows submitted on the current date and the number of
  distinct emails. Variant 1 always answers with success and holds the aggregate of every
  statement that did not fail, hence all three when none failed.
\<close>

theorem stats_failure_policy:
  "(f_total \<or> f_today \<or> f_unique \<longrightarrow>
      stats_v3 f_total f_today f_unique now d = (500, Failure ''Database error'')) \<and>
   stats_v3 False False False now d =
     (200, Stats [(''totalResponses'', length (responses d)),
                  (''todayResponses'',
                     length (filter (\<lambda>r. take 10 (submitted_at r) = take 10 now) (responses d))),
                  (''uniqueEmails'', card {e. \<exists>r \<in> set (responses d). email r = Some e})]) \<and>
   stats_v1 f_total f_today f_unique now d =
     (200, Stats ((if f_total then [] else [(''total'', length (responses d))]) @
                  (if f_today then [] else
                     [(''today'',
                       length (filter (\<lambda>r. take 10 (submitted_at r) = take 10 now) (responses d)))]) @
                  (if f_unique then [] else
                     [(''uniqueEmails'', card {e. \<exists>r \<in> set (responses d). email r = Some e})])))"
  by (simp add: stats_v3_def stats_v1_def db_get_count_def count_total_def count_today_def
      sql_date_def count_distinct_email_card)

theorem stats_failure_policy_witness:
  "stats_v3 False True False ''2024-05-01 23:59:59'' ana_db = (500, Failure ''Database error'') \<and>
   stats_v1 False True False ''2024-05-01 23:59:59'' ana_db =
     (200, Stats [(''total'', 1), (''uniqueEmails'', 1)])"
proof -
  have e: "{e. \<exists>r \<in> set (responses ana_db). email r = Some e} = {''a@x.com''}"
    by (auto simp: ana_db_def ana_row_def)
  show ?thesis
    using stats_failure_policy [of False True False "''2024-05-01 23:59:59''" ana_db]
    by (simp add: e) (simp add: ana_db_def)
qed

text \<open>
  C1 as stated fails on variant 1: with the statement for the total failing, the response
  is a success that lacks the total.
\<close>

theorem stats_v1_partial_failure_is_success:
  "stats_v1 True False False ''2024-05-01 23:59:59'' ana_db =
     (200, Stats [(''today'', 1), (''uniqueEmails'', 1)])"
  by (simp add: stats_v1_def db_get_count_def count_today_def count_distinct_email_def
      sql_date_def ana_db_def ana_row_def)

section \<open>Deletion\<close>

text \<open>
  Variant 1 answers 404 exactly when no row has the key, and 200 after removing the row;
  a second deletion of the same key is then answered with 404.
\<close>

lemma delete_response_v1_outcome:
  "delete_response_v1 False i d =
     (if \<exists>r \<in> set (responses d). row_id r = i
      then ((200, Deleted ''Response deleted successfully''),
            d\<lparr>responses := filter (\<lambda>r. row_id r \<noteq> i) (responses d)\<rparr>)
      else ((404, Failure ''Response not found''), d))"
proof -
  have "(filter (\<lambda>r. row_id r = i) (responses d) = []) = (\<not> (\<exists>r \<in> set (responses d). row_id r = i))"
    by (auto simp: filter_empty_conv)
  moreover have "\<not> (\<exists>r \<in> set (responses d). row_id r = i) \<Longrightarrow>
      filter (\<lambda>r. row_id r \<noteq> i) (responses d) = responses d"
    by (induction "responses d") (auto simp: filter_id_conv)
  ultimately show ?thesis
    by (auto simp: delete_response_v1_def db_run_delete_def)
qed

lemma delete_response_v1_twice:
  assumes "delete_response_v1 False i d = (res, d')"
  shows "delete_response_v1 False i d' = ((404, Failure ''Response not found''), d')"
  using assms by (auto simp: delete_response_v1_outcome split: if_splits)

text \<open>
  C2 on variant 3: the handler never reads the number of deleted rows, so deleting key 1
  twice is answered with success both times, the second time with no row deleted.
\<close>

theorem delete_v3_twice_succeeds_twice:
  "delete_response_v3 False 1 ana_db =
     ((200, Deleted ''Response deleted successfully''), ana_db\<lparr>responses := []\<rparr>) \<and>
   delete_response_v3 False 1 (ana_db\<lparr>responses := []\<rparr>) =
     ((200, Deleted ''Response deleted successfully''), ana_db\<lparr>responses := []\<rparr>)"
  by (simp add: delete_response_v3_def db_run_delete_def ana_db_def ana_row_def)

section \<open>Search: the required query\<close>

lemma pattern_compare_percent [simp]: "pattern_compare ''%'' s"
  by (induction s) auto

lemma pattern_compare_percent_percent [simp]: "pattern_compare ''%%'' s"
  by (induction s) auto

text \<open>
  Variant 1 answers an absent or empty query with status 400 whatever the table and the
  store, so no statement decides the response: it does what C4 says.
\<close>

lemma search_v1_requires_query:
  assumes "query = None \<or> query = Some []"
  shows "search_v1 fault query d = (400, Failure ''Search query is required'')"
  using assms by (auto simp: search_v1_def)

text \<open>
  Variant 3 has no such check: it searches with the empty string, and \<open>%%\<close> selects every
  row whose \<open>first_name\<close> or \<open>email\<close> is not NULL.
\<close>

lemma search_v3_without_query:
  assumes "query = None \<or> query = Some []"
  shows "search_v3 False query d =
           (200, Rows (length [r \<leftarrow> responses d. first_name r \<noteq> None \<or> email r \<noteq> None])
                   (order_by_submitted_at_desc
                      [r \<leftarrow> responses d. first_name r \<noteq> None \<or> email r \<noteq> None]))"
proof -
  have len: "length (order_by_submitted_at_desc rs) = length rs" for rs
    by (simp add: order_by_submitted_at_desc_def)
  have like: "column_like ''%%'' v = (v \<noteq> None)" for v
    by (cases v) (simp_all add: column_like_def sql_like_def c_string_def)
  show ?thesis
    using assms
    by (auto simp: search_v3_def db_all_search_def js_or_empty_def js_or_def truthy_def like len)
qed

text \<open>
  C4 on variant 3: with the query absent, and with the query empty, the search of the
  two-row table is answered with status 200 and both rows, not with status 400.
\<close>

theorem search_v3_without_query_returns_rows:
  "search_v3 False None two_db = (200, Rows 2 [ben_row, ana_row]) \<and>
   search_v3 False (Some []) two_db = (200, Rows 2 [ben_row, ana_row])"
proof -
  have "order_by_submitted_at_desc
          [r \<leftarrow> responses two_db. first_name r \<noteq> None \<or> email r \<noteq> None] = [ben_row, ana_row]"
    by (simp add: order_by_submitted_at_desc_def two_db_def ana_row_def ben_row_def)
  then show ?thesis
    by (simp add: search_v3_without_query two_db_def ana_row_def ben_row_def)
qed

section \<open>The example tables, computed\<close>

lemma run_two:
  "run_v1 [Submit False ''2024-05-01 10:00:00'' ana, Submit False ''2024-05-02 08:15:00'' ben]
     empty_db = two_db"
  by (simp add: run_v1_def submit_questionnaire_v1_def ana_def ben_def empty_db_def two_db_def
      ana_row_def ben_row_def db_run_insert_def truthy_def js_or_def largest_rowid_def
      max_rowid_def)

lemma list_two:
  "list_responses_v1 False two_db =
     (200, Listing 2 [listed_row.truncate ben_row, listed_row.truncate ana_row])"
  by (simp add: list_responses_v1_def db_all_listed_def order_by_submitted_at_desc_def
      two_db_def ana_row_def ben_row_def)

lemma delete_ben:
  "run_v1 [Delete False 2] two_db = two_db\<lparr>responses := [ana_row]\<rparr>"
  by (simp add: run_v1_def delete_response_v1_def db_run_delete_def two_db_def ana_row_def
      ben_row_def)

lemma submit_ben_again:
  "submit_questionnaire_v1 False ''2024-05-03 12:00:00'' ben (two_db\<lparr>responses := [ana_row]\<rparr>) =
     ((200, Saved 3 ''Response saved successfully''),
      \<lparr>responses = [ana_row, ben_row\<lparr>row_id := 3, submitted_at := ''2024-05-03 12:00:00''\<rparr>],
       sqlite_sequence = 3\<rparr>)"
  by (simp add: submit_questionnaire_v1_def ben_def two_db_def ana_row_def ben_row_def
      db_run_insert_def truthy_def js_or_def largest_rowid_def max_rowid_def)

section \<open>Invariants of the table\<close>

lemma truthy_not_null: "truthy v \<Longrightarrow> v \<noteq> None"
  by (cases v) (simp_all add: truthy_def)

lemma fold_max_le: "(a::int) \<le> s \<Longrightarrow> \<forall>x \<in> set xs. x \<le> s \<Longrightarrow> fold max xs a \<le> s"
  by (induction xs arbitrary: a) auto

lemma largest_rowid_le_sequence:
  "table_inv d \<Longrightarrow> largest_rowid (responses d) \<le> sqlite_sequence d"
  unfolding largest_rowid_def table_inv_def by (rule fold_max_le) auto

lemma table_inv_empty: "table_inv empty_db"
  by (simp add: table_inv_def empty_db_def)

lemma table_inv_submit_v1:
  assumes "table_inv d"
  shows "table_inv (snd (submit_questionnaire_v1 fault now req d))"
proof -
  consider (saved) i msg where "fst (submit_questionnaire_v1 fault now req d) = (200, Saved i msg)"
    | (same) "snd (submit_questionnaire_v1 fault now req d) = d"
    using submit_v1_cases by blast
  then show ?thesis
  proof cases
    case saved
    obtain d' where d': "submit_questionnaire_v1 fault now req d = ((200, Saved i msg), d')"
      using saved by (cases "submit_questionnaire_v1 fault now req d") auto
    from submit_v1_saved [OF d'] obtain r where
      v: "truthy (firstName req)" "truthy (email_in req)"
      and i: "i = max (sqlite_sequence d) (largest_rowid (responses d)) + 1"
      and s: "sqlite_sequence d' = i"
      and r: "responses d' = responses d @ [r]" "row_id r = i"
        "first_name r = firstName req" "email r = email_in req"
      by blast
    have "i = sqlite_sequence d + 1"
      using i largest_rowid_le_sequence [OF assms] by simp
    then have "table_inv d'"
      using assms v s r unfolding table_inv_def by fastforce
    then show ?thesis by (simp add: d')
  next
    case same
    then show ?thesis using assms by simp
  qed
qed

lemma table_inv_delete_v1:
  assumes "table_inv d"
  shows "table_inv (snd (delete_response_v1 fault i d))"
  using assms
  by (auto simp: delete_response_v1_def db_run_delete_def table_inv_def distinct_map_filter)

lemma table_inv_apply_op: "table_inv d \<Longrightarrow> table_inv (apply_op_v1 op d)"
  by (cases op) (simp_all add: table_inv_submit_v1 table_inv_delete_v1)

lemma table_inv_run: "table_inv d \<Longrightarrow> table_inv (run_v1 ops d)"
  unfolding run_v1_def by (induction ops arbitrary: d) (simp_all add: table_inv_apply_op)

lemma sequence_mono_apply_op: "sqlite_sequence d \<le> sqlite_sequence (apply_op_v1 op d)"
proof (cases op)
  case (Submit fault now req)
  then show ?thesis
    by (auto simp: submit_questionnaire_v1_def db_run_insert_def Let_def split: if_splits)
next
  case (Delete fault i)
  then show ?thesis
    by (auto simp: delete_response_v1_def db_run_delete_def)
qed

lemma sequence_mono_run: "sqlite_sequence d \<le> sqlite_sequence (run_v1 ops d)"
  unfolding run_v1_def
proof (induction ops arbitrary: d)
  case Nil
  show ?case by simp
next
  case (Cons op ops)
  have "sqlite_sequence d \<le> sqlite_sequence (apply_op_v1 op d)"
    by (rule sequence_mono_apply_op)
  also have "\<dots> \<le> sqlite_sequence (fold apply_op_v1 ops (apply_op_v1 op d))"
    by (rule Cons.IH)
  finally show ?case by simp
qed

lemma rows_after_apply_op:
  assumes "r \<in> set (responses (apply_op_v1 op d))"
  shows "r \<in> set (responses d) \<or> sqlite_sequence d < row_id r"
proof (cases op)
  case (Submit fault now req)
  then show ?thesis
    using assms
    by (auto simp: submit_questionnaire_v1_def db_run_insert_def Let_def split: if_splits)
next
  case (Delete fault i)
  then show ?thesis
    using assms by (auto simp: delete_response_v1_def db_run_delete_def split: if_splits)
qed

lemma rows_after_run:
  assumes "r \<in> set (responses (run_v1 ops d))"
  shows "r \<in> set (responses d) \<or> sqlite_sequence d < row_id r"
  using assms unfolding run_v1_def
proof (induction ops arbitrary: d)
  case Nil
  then show ?case by simp
next
  case (Cons op ops)
  then have "r \<in> set (responses (apply_op_v1 op d)) \<or>
      sqlite_sequence (apply_op_v1 op d) < row_id r"
    by simp
  then show ?case
    using rows_after_apply_op [of r op d] sequence_mono_apply_op [of d op] by auto
qed

text \<open>
  C9. Let \<open>d1\<close> be a table reached from the empty one by any sequence of submissions and
  deletions (failing ones included), and \<open>d2\<close> a table reached from \<open>d1\<close> by any further
  sequence. Then every row of \<open>d1\<close> has a \<open>first_name\<close> and an \<open>email\<close> that are not NULL; a
  row of \<open>d2\<close> with the key of a row of \<open>d1\<close> has the same \<open>submitted_at\<close>; and a submission
  to \<open>d2\<close> that is answered with a key gets one above the key of every row of \<open>d1\<close>, whether
  that row is still in \<open>d2\<close> or has been deleted.
\<close>

theorem table_invariants:
  assumes "d1 = run_v1 ops1 empty_db" and "d2 = run_v1 ops2 d1"
  shows "(\<forall>r \<in> set (responses d1). first_name r \<noteq> None \<and> email r \<noteq> None) \<and>
         (\<forall>r1 \<in> set (responses d1). \<forall>r2 \<in> set (responses d2).
            row_id r2 = row_id r1 \<longrightarrow> submitted_at r2 = submitted_at r1) \<and>
         (\<forall>r1 \<in> set (responses d1).
            submit_questionnaire_v1 fault now req d2 = ((200, Saved i msg), d3) \<longrightarrow>
            row_id r1 < i)"
proof -
  have inv1: "table_inv d1"
    using assms(1) table_inv_run [OF table_inv_empty] by simp
  have a: "\<forall>r \<in> set (responses d1). first_name r \<noteq> None \<and> email r \<noteq> None"
    using inv1 truthy_not_null unfolding table_inv_def by blast
  have b: "submitted_at r2 = submitted_at r1"
    if "r1 \<in> set (responses d1)" "r2 \<in> set (responses d2)" "row_id r2 = row_id r1" for r1 r2
  proof -
    have "row_id r1 \<le> sqlite_sequence d1"
      using inv1 that(1) by (simp add: table_inv_def)
    then have "r2 \<in> set (responses d1)"
      using rows_after_run [of r2 ops2 d1] that(2,3) assms(2) by auto
    then have "r2 = r1"
      using inv1 that(1,3) by (auto simp: table_inv_def distinct_map dest: inj_onD)
    then show ?thesis by simp
  qed
  have c: "row_id r1 < i"
    if "r1 \<in> set (responses d1)"
      "submit_questionnaire_v1 fault now req d2 = ((200, Saved i msg), d3)" for r1
  proof -
    have "row_id r1 \<le> sqlite_sequence d1"
      using inv1 that(1) by (simp add: table_inv_def)
    also have "\<dots> \<le> sqlite_sequence d2"
      using assms(2) sequence_mono_run by simp
    also have "\<dots> < i"
      using submit_v1_saved [OF that(2)] by simp
    finally show ?thesis .
  qed
  from a b c show ?thesis by blast
qed

theorem table_invariants_witness:
  "run_v1 [Submit False ''2024-05-01 10:00:00'' ana, Submit False ''2024-05-02 08:15:00'' ben]
     empty_db = two_db \<and>
   run_v1 [Delete False 2] two_db = two_db\<lparr>responses := [ana_row]\<rparr> \<and>
   first_name ben_row \<noteq> None \<and> email ben_row \<noteq> None \<and>
   submitted_at ana_row = ''2024-05-01 10:00:00'' \<and>
   submit_questionnaire_v1 False ''2024-05-03 12:00:00'' ben (two_db\<lparr>responses := [ana_row]\<rparr>) =
     ((200, Saved 3 ''Response saved successfully''),
      \<lparr>responses = [ana_row, ben_row\<lparr>row_id := 3, submitted_at := ''2024-05-03 12:00:00''\<rparr>],
       sqlite_sequence = 3\<rparr>) \<and>
   row_id ben_row < 3"
proof -
  note t = table_invariants [OF run_two [symmetric] delete_ben [symmetric],
      of False "''2024-05-03 12:00:00''" ben 3 "''Response saved successfully''"
      "\<lparr>responses = [ana_row, ben_row\<lparr>row_id := 3, submitted_at := ''2024-05-03 12:00:00''\<rparr>],
       sqlite_sequence = 3\<rparr>"]
  have b: "ben_row \<in> set (responses two_db)" and a: "ana_row \<in> set (responses two_db)"
    and a2: "ana_row \<in> set (responses (two_db\<lparr>responses := [ana_row]\<rparr>))"
    by (simp_all add: two_db_def)
  from t b have "first_name ben_row \<noteq> None \<and> email ben_row \<noteq> None"
    by blast
  moreover from t b submit_ben_again have "row_id ben_row < 3"
    by blast
  moreover from t a a2 have "submitted_at ana_row = submitted_at ana_row"
    by blast
  ultimately show ?thesis
    using run_two delete_ben submit_ben_again by (simp add: ana_row_def)
qed

section \<open>Listing\<close>

lemma run_valid_submits:
  assumes "list_all valid_submit ops" "table_inv d"
    "sqlite_sequence d + int (length ops) \<le> max_rowid"
  shows "length (responses (run_v1 ops d)) = length (responses d) + length ops \<and>
         sqlite_sequence (run_v1 ops d) = sqlite_sequence d + int (length ops)"
  using assms unfolding run_v1_def
proof (induction ops arbitrary: d)
  case Nil
  then show ?case by simp
next
  case (Cons op ops)
  from Cons.prems(1) obtain now req where op: "op = Submit False now req"
    and v: "truthy (firstName req)" "truthy (email_in req)"
    by (cases op) auto
  have lt: "max (sqlite_sequence d) (largest_rowid (responses d)) < max_rowid"
    using Cons.prems(2,3) largest_rowid_le_sequence [of d] by simp
  from submit_v1_accepts [OF v _ lt, of False now] obtain i d' where
    s: "submit_questionnaire_v1 False now req d = ((200, Saved i ''Response saved successfully''), d')"
    by auto
  from submit_v1_saved [OF s] have
    d': "sqlite_sequence d' = sqlite_sequence d + 1" "length (responses d') = length (responses d) + 1"
    using largest_rowid_le_sequence [OF Cons.prems(2)] by auto
  have ap: "apply_op_v1 op d = d'"
    using op s by simp
  have "table_inv d'"
    using table_inv_apply_op [OF Cons.prems(2), of op] ap by simp
  moreover have "sqlite_sequence d' + int (length ops) \<le> max_rowid"
    using d' Cons.prems(3) by simp
  moreover have "list_all valid_submit ops"
    using Cons.prems(1) by simp
  ultimately have "length (responses (fold apply_op_v1 ops d')) = length (responses d') + length ops \<and>
         sqlite_sequence (fold apply_op_v1 ops d') = sqlite_sequence d' + int (length ops)"
    using Cons.IH by blast
  then show ?case
    using ap d' by simp
qed

lemma submitted_at_truncate [simp]: "submitted_at (listed_row.truncate r) = submitted_at r"
  by (simp add: listed_row.truncate_def)

lemma order_desc_sorted:
  "sorted_wrt (\<lambda>a b. submitted_at b \<le> submitted_at a) (order_by_submitted_at_desc rs)"
proof -
  have "sorted (map submitted_at (sort_key submitted_at (rev rs)))"
    by (rule sorted_sort_key)
  then show ?thesis
    by (simp add: order_by_submitted_at_desc_def sorted_wrt_rev sorted_wrt_map)
qed

lemma order_desc_mset: "mset (order_by_submitted_at_desc rs) = mset rs"
  by (simp add: order_by_submitted_at_desc_def)

lemma order_desc_length: "length (order_by_submitted_at_desc rs) = length rs"
  by (simp add: order_by_submitted_at_desc_def)

text \<open>
  C8. For every table the listing answers with as many rows as the table has, the count
  being that number; the rows are the table's rows (their ten listed columns), each as
  often as it is in the table, in descending order of \<open>submitted_at\<close>. After \<open>N\<close> accepted
  submissions to the empty table (\<open>N\<close> within the 64-bit key space) it answers with \<open>N\<close> rows.
\<close>

theorem listing_all_rows_descending:
  "(\<exists>L. list_responses_v1 False d = (200, Listing (length (responses d)) L) \<and>
        length L = length (responses d) \<and>
        mset L = mset (map listed_row.truncate (responses d)) \<and>
        sorted_wrt (\<lambda>a b. submitted_at b \<le> submitted_at a) L) \<and>
   (list_all valid_submit ops \<and> int (length ops) \<le> max_rowid \<longrightarrow>
      (\<exists>L. list_responses_v1 False (run_v1 ops empty_db) = (200, Listing (length ops) L) \<and>
           length L = length ops \<and>
           sorted_wrt (\<lambda>a b. submitted_at b \<le> submitted_at a) L))"
proof -
  have general: "\<exists>L. list_responses_v1 False t = (200, Listing (length (responses t)) L) \<and>
        length L = length (responses t) \<and>
        mset L = mset (map listed_row.truncate (responses t)) \<and>
        sorted_wrt (\<lambda>a b. submitted_at b \<le> submitted_at a) L" for t
  proof (intro exI conjI)
    show "list_responses_v1 False t =
        (200, Listing (length (responses t))
                (map listed_row.truncate (order_by_submitted_at_desc (responses t))))"
      by (simp add: list_responses_v1_def db_all_listed_def order_desc_length)
    show "length (map listed_row.truncate (order_by_submitted_at_desc (responses t))) =
        length (responses t)"
      by (simp add: order_desc_length)
    show "mset (map listed_row.truncate (order_by_submitted_at_desc (responses t))) =
        mset (map listed_row.truncate (responses t))"
      by (simp add: order_desc_mset)
    show "sorted_wrt (\<lambda>a b. submitted_at b \<le> submitted_at a)
        (map listed_row.truncate (order_by_submitted_at_desc (responses t)))"
      using order_desc_sorted [of "responses t"] by (simp add: sorted_wrt_map)
  qed
  have "length (responses (run_v1 ops empty_db)) = length ops"
    if "list_all valid_submit ops" "int (length ops) \<le> max_rowid"
    using run_valid_submits [OF that(1) table_inv_empty] that(2)
    by (simp add: empty_db_def)
  then show ?thesis
    using general [of d] general [of "run_v1 ops empty_db"] by auto
qed

theorem listing_all_rows_descending_witness:
  "list_all valid_submit
     [Submit False ''2024-05-01 10:00:00'' ana, Submit False ''2024-05-02 08:15:00'' ben] \<and>
   list_responses_v1 False
     (run_v1 [Submit False ''2024-05-01 10:00:00'' ana, Submit False ''2024-05-02 08:15:00'' ben]
        empty_db) =
     (200, Listing 2 [listed_row.truncate ben_row, listed_row.truncate ana_row]) \<and>
   submitted_at ana_row \<le> submitted_at ben_row"
proof -
  let ?ops = "[Submit False ''2024-05-01 10:00:00'' ana, Submit False ''2024-05-02 08:15:00'' ben]"
  note t = listing_all_rows_descending [of two_db ?ops]
  have h: "list_all valid_submit ?ops \<and> int (length ?ops) \<le> max_rowid"
    by (simp add: ana_def ben_def truthy_def max_rowid_def)
  from t h obtain L where
    L: "list_responses_v1 False (run_v1 ?ops empty_db) = (200, Listing (length ?ops) L)"
      "sorted_wrt (\<lambda>a b. submitted_at b \<le> submitted_at a) L"
    by blast
  from L(1) have "L = [listed_row.truncate ben_row, listed_row.truncate ana_row]"
    by (simp add: run_two list_two)
  with L(2) have "submitted_at ana_row \<le> submitted_at ben_row"
    by simp
  then show ?thesis
    using h L(1) by (simp add: run_two list_two)
qed

section \<open>Search: what the pattern matches\<close>

text \<open>
  A pattern of plain characters followed by \<open>%\<close> matches the texts that begin with those
  characters, and between two \<open>%\<close> the texts that contain them, both up to ASCII case.
\<close>

lemma compare_literal_then_percent:
  assumes "CHR ''%'' \<notin> set q" "CHR ''_'' \<notin> set q"
  shows "pattern_compare (q @ ''%'') s = prefix (map ascii_lower q) (map ascii_lower s)"
  using assms
proof (induction q arbitrary: s)
  case Nil
  show ?case by simp
next
  case (Cons p q)
  then have p: "p \<noteq> CHR ''%''" "p \<noteq> CHR ''_''"
    and IH: "\<And>t. pattern_compare (q @ ''%'') t = prefix (map ascii_lower q) (map ascii_lower t)"
    by auto
  show ?case
  proof (cases s)
    case Nil
    then show ?thesis using p by simp
  next
    case (Cons c cs)
    then show ?thesis using p IH by simp
  qed
qed

lemma compare_percent_literal_percent:
  assumes "CHR ''%'' \<notin> set q" "CHR ''_'' \<notin> set q"
  shows "pattern_compare (''%'' @ q @ ''%'') s =
           sublist (map ascii_lower q) (map ascii_lower s)"
proof (induction s)
  case Nil
  have "pattern_compare (q @ ''%'') [] = (q = [])"
    using compare_literal_then_percent [OF assms, of "[]"] by simp
  then show ?case by simp
next
  case (Cons c cs)
  have "pattern_compare (''%'' @ q @ ''%'') (c # cs) =
      (pattern_compare (q @ ''%'') (c # cs) \<or> pattern_compare (''%'' @ q @ ''%'') cs)"
    by simp
  also have "\<dots> = (prefix (map ascii_lower q) (map ascii_lower (c # cs)) \<or>
      sublist (map ascii_lower q) (map ascii_lower cs))"
    using compare_literal_then_percent [OF assms] Cons.IH by simp
  also have "\<dots> = sublist (map ascii_lower q) (map ascii_lower (c # cs))"
    by (simp add: sublist_Cons_right)
  finally show ?case .
qed

text \<open>A text without a NUL character is read to its end.\<close>

lemma c_string_no_nul: "CHR 0x00 \<notin> set s \<Longrightarrow> c_string s = s"
  by (auto simp: c_string_def takeWhile_eq_all_conv)

lemma like_percent_literal_percent:
  assumes "CHR ''%'' \<notin> set q" "CHR ''_'' \<notin> set q" "CHR 0x00 \<notin> set q" "CHR 0x00 \<notin> set s"
  shows "sql_like (''%'' @ q @ ''%'') s = sublist (map ascii_lower q) (map ascii_lower s)"
proof -
  have "CHR 0x00 \<notin> set (''%'' @ q @ ''%'')"
    using assms(3) by simp
  then have p: "c_string (''%'' @ q @ ''%'') = ''%'' @ q @ ''%''"
    by (rule c_string_no_nul)
  have t: "c_string s = s"
    using assms(4) by (rule c_string_no_nul)
  have "sql_like (''%'' @ q @ ''%'') s = pattern_compare (''%'' @ q @ ''%'') s"
    unfolding sql_like_def p t ..
  then show ?thesis
    using compare_percent_literal_percent [OF assms(1,2)] by simp
qed

lemma column_like_contains_ci:
  assumes "CHR ''%'' \<notin> set q" "CHR ''_'' \<notin> set q" "CHR 0x00 \<notin> set q" "no_nul v"
  shows "column_like (''%'' @ q @ ''%'') v = contains_ci q v"
proof (cases v)
  case None
  then show ?thesis by (simp add: column_like_def contains_ci_def)
next
  case (Some t)
  then have "CHR 0x00 \<notin> set t"
    using assms(4) by (simp add: no_nul_def)
  then show ?thesis
    using like_percent_literal_percent [OF assms(1-3)] Some
    by (simp add: column_like_def contains_ci_def)
qed

text \<open>
  C7, as the code has it. Take a non-empty query in which none of \<open>%\<close>, \<open>_\<close> and the NUL
  character occurs, and a table in whose rows \<open>first_name\<close> and \<open>email\<close> hold no NUL
  character. The search of variant 1 then answers with status 200, the rows whose
  \<open>first_name\<close> or \<open>email\<close> contains the query as a substring up to ASCII case (each as often
  as it is in the table), in descending order of \<open>submitted_at\<close>, and their number as count;
  when no row matches, the rows are empty and the count is 0.
\<close>

theorem search_literal_query:
  assumes "q \<noteq> []" and "CHR ''%'' \<notin> set q" and "CHR ''_'' \<notin> set q"
    and "CHR 0x00 \<notin> set q"
    and "\<forall>r \<in> set (responses d). no_nul (first_name r) \<and> no_nul (email r)"
  shows "\<exists>L. search_v1 False (Some q) d = (200, Rows (length L) L) \<and>
           mset L = mset [r \<leftarrow> responses d. contains_ci q (first_name r) \<or> contains_ci q (email r)] \<and>
           sorted_wrt (\<lambda>a b. submitted_at b \<le> submitted_at a) L \<and>
           ((\<forall>r \<in> set (responses d). \<not> contains_ci q (first_name r) \<and> \<not> contains_ci q (email r))
              \<longrightarrow> L = [])"
proof (intro exI conjI impI)
  let ?M = "[r \<leftarrow> responses d. contains_ci q (first_name r) \<or> contains_ci q (email r)]"
  have "[r \<leftarrow> responses d. column_like (''%'' @ q @ ''%'') (first_name r) \<or>
                           column_like (''%'' @ q @ ''%'') (email r)] = ?M"
    using assms(5) column_like_contains_ci [OF assms(2-4)]
    by (intro filter_cong refl) simp
  then show "search_v1 False (Some q) d =
      (200, Rows (length (order_by_submitted_at_desc ?M)) (order_by_submitted_at_desc ?M))"
    using assms(1) by (simp add: search_v1_def db_all_search_def)
  show "mset (order_by_submitted_at_desc ?M) = mset ?M"
    by (rule order_desc_mset)
  show "sorted_wrt (\<lambda>a b. submitted_at b \<le> submitted_at a) (order_by_submitted_at_desc ?M)"
    by (rule order_desc_sorted)
  assume "\<forall>r \<in> set (responses d). \<not> contains_ci q (first_name r) \<and> \<not> contains_ci q (email r)"
  then have "?M = []"
    by (simp add: filter_empty_conv)
  then show "order_by_submitted_at_desc ?M = []"
    by (simp add: order_by_submitted_at_desc_def)
qed

lemma ascii_lower_examples:
  "ascii_lower CHR ''A'' = CHR ''a''" "ascii_lower CHR ''B'' = CHR ''b''"
  "ascii_lower CHR ''N'' = CHR ''n''" "ascii_lower CHR ''a'' = CHR ''a''"
  "ascii_lower CHR ''b'' = CHR ''b''" "ascii_lower CHR ''c'' = CHR ''c''"
  "ascii_lower CHR ''e'' = CHR ''e''" "ascii_lower CHR ''g'' = CHR ''g''"
  "ascii_lower CHR ''m'' = CHR ''m''" "ascii_lower CHR ''n'' = CHR ''n''"
  "ascii_lower CHR ''o'' = CHR ''o''" "ascii_lower CHR ''r'' = CHR ''r''"
  "ascii_lower CHR ''x'' = CHR ''x''" "ascii_lower CHR ''y'' = CHR ''y''"
  "ascii_lower CHR ''z'' = CHR ''z''" "ascii_lower CHR ''@'' = CHR ''@''"
  "ascii_lower CHR ''.'' = CHR ''.''" "ascii_lower CHR ''%'' = CHR ''%''"
  "ascii_lower CHR ''_'' = CHR ''_''" "ascii_lower (CHR 0x00) = CHR 0x00"
  by (simp_all add: ascii_lower_def)

lemma search_AN_filter:
  "[r \<leftarrow> responses two_db. contains_ci ''AN'' (first_name r) \<or> contains_ci ''AN'' (email r)] =
     [ana_row]"
  by (simp add: contains_ci_def two_db_def ana_row_def ben_row_def sublist_code prefix_code
      ascii_lower_examples)

theorem search_literal_query_witness:
  "''AN'' \<noteq> [] \<and> CHR ''%'' \<notin> set ''AN'' \<and> CHR ''_'' \<notin> set ''AN'' \<and> CHR 0x00 \<notin> set ''AN'' \<and>
   no_nul (first_name ana_row) \<and> no_nul (email ana_row) \<and>
   no_nul (first_name ben_row) \<and> no_nul (email ben_row) \<and>
   search_v1 False (Some ''AN'') two_db = (200, Rows 1 [ana_row]) \<and>
   contains_ci ''AN'' (first_name ana_row) \<and>
   \<not> contains_ci ''AN'' (first_name ben_row) \<and> \<not> contains_ci ''AN'' (email ben_row)"
proof -
  have h: "''AN'' \<noteq> []" "CHR ''%'' \<notin> set ''AN''" "CHR ''_'' \<notin> set ''AN''"
    "CHR 0x00 \<notin> set ''AN''"
    by simp_all
  have n: "no_nul (first_name ana_row) \<and> no_nul (email ana_row) \<and>
      no_nul (first_name ben_row) \<and> no_nul (email ben_row)"
    by (simp add: no_nul_def ana_row_def ben_row_def)
  then have t: "\<forall>r \<in> set (responses two_db). no_nul (first_name r) \<and> no_nul (email r)"
    by (simp add: two_db_def)
  from search_literal_query [OF h t] obtain L where
    L: "search_v1 False (Some ''AN'') two_db = (200, Rows (length L) L)"
      "mset L = mset [r \<leftarrow> responses two_db.
                       contains_ci ''AN'' (first_name r) \<or> contains_ci ''AN'' (email r)]"
    by blast
  from L(2) have "L = [ana_row]"
    by (simp add: search_AN_filter)
  with L(1) have "search_v1 False (Some ''AN'') two_db = (200, Rows 1 [ana_row])"
    by simp
  moreover have "contains_ci ''AN'' (first_name ana_row) \<and>
      \<not> contains_ci ''AN'' (first_name ben_row) \<and> \<not> contains_ci ''AN'' (email ben_row)"
    by (simp add: contains_ci_def ana_row_def ben_row_def sublist_code prefix_code
        ascii_lower_examples)
  ultimately show ?thesis
    using h n by simp
qed

text \<open>
  C7 as stated fails in three ways. The query \<open>_\<close> returns the row of Ana, whose name and
  email hold no underscore. The query \<open>a\<close>, NUL, \<open>zzz\<close> is read up to its NUL, so the pattern
  is \<open>%a\<close> and the row of Ana is returned, whose name and email do not contain the query.
  And the query \<open>na\<close> does not return the row whose name is \<open>A\<close>, NUL, \<open>na\<close>, which contains
  the query: the name is read up to its NUL.
\<close>

theorem search_wildcard_and_nul_counterexample:
  "search_v1 False (Some ''_'') ana_db = (200, Rows 1 [ana_row]) \<and>
   \<not> contains_ci ''_'' (first_name ana_row) \<and> \<not> contains_ci ''_'' (email ana_row) \<and>
   search_v1 False (Some (''a'' @ [CHR 0x00] @ ''zzz'')) ana_db = (200, Rows 1 [ana_row]) \<and>
   \<not> contains_ci (''a'' @ [CHR 0x00] @ ''zzz'') (first_name ana_row) \<and>
   \<not> contains_ci (''a'' @ [CHR 0x00] @ ''zzz'') (email ana_row) \<and>
   search_v1 False (Some ''na'') nul_db = (200, Rows 0 []) \<and>
   contains_ci ''na'' (first_name nul_row)"
proof (intro conjI)
  show "search_v1 False (Some ''_'') ana_db = (200, Rows 1 [ana_row])"
    by (simp add: search_v1_def db_all_search_def column_like_def sql_like_def c_string_def
        ana_db_def ana_row_def order_by_submitted_at_desc_def)
  show "\<not> contains_ci ''_'' (first_name ana_row)" "\<not> contains_ci ''_'' (email ana_row)"
    by (simp_all add: ana_row_def contains_ci_def sublist_code prefix_code ascii_lower_examples)
  show "search_v1 False (Some (''a'' @ [CHR 0x00] @ ''zzz'')) ana_db = (200, Rows 1 [ana_row])"
    by (simp add: search_v1_def db_all_search_def column_like_def sql_like_def c_string_def
        ana_db_def ana_row_def order_by_submitted_at_desc_def ascii_lower_examples)
  show "\<not> contains_ci (''a'' @ [CHR 0x00] @ ''zzz'') (first_name ana_row)"
    "\<not> contains_ci (''a'' @ [CHR 0x00] @ ''zzz'') (email ana_row)"
    by (simp_all add: ana_row_def contains_ci_def sublist_code prefix_code ascii_lower_examples)
  show "search_v1 False (Some ''na'') nul_db = (200, Rows 0 [])"
    by (simp add: search_v1_def db_all_search_def column_like_def sql_like_def c_string_def
        nul_db_def nul_row_def order_by_submitted_at_desc_def ascii_lower_examples)
  show "contains_ci ''na'' (first_name nul_row)"
    by (simp add: nul_row_def contains_ci_def sublist_code prefix_code ascii_lower_examples)
qed

text \<open>
  C10. In both variants the query goes into the pattern as it is, so its \<open>%\<close> and \<open>_\<close> act as
  wildcards. On the table of Ana and Ben the query \<open>B%.org\<close> returns the row of Ben and no
  other, although neither his name nor his email contains the text \<open>B%.org\<close>; and the query
  \<open>_na\<close> returns the row of Ana and no other, although neither her name nor her email
  contains the text \<open>_na\<close>.
\<close>

theorem search_wildcards_not_escaped:
  "search_v1 False (Some ''B%.org'') two_db = (200, Rows 1 [ben_row]) \<and>
   search_v3 False (Some ''B%.org'') two_db = (200, Rows 1 [ben_row]) \<and>
   \<not> contains_literal ''B%.org'' (first_name ben_row) \<and>
   \<not> contains_literal ''B%.org'' (email ben_row) \<and>
   search_v1 False (Some ''_na'') two_db = (200, Rows 1 [ana_row]) \<and>
   search_v3 False (Some ''_na'') two_db = (200, Rows 1 [ana_row]) \<and>
   \<not> contains_literal ''_na'' (first_name ana_row) \<and>
   \<not> contains_literal ''_na'' (email ana_row)"
proof (intro conjI)
  show "search_v1 False (Some ''B%.org'') two_db = (200, Rows 1 [ben_row])"
    "search_v1 False (Some ''_na'') two_db = (200, Rows 1 [ana_row])"
    by (simp_all add: search_v1_def db_all_search_def column_like_def sql_like_def c_string_def
        two_db_def ana_row_def ben_row_def order_by_submitted_at_desc_def ascii_lower_examples)
  show "search_v3 False (Some ''B%.org'') two_db = (200, Rows 1 [ben_row])"
    "search_v3 False (Some ''_na'') two_db = (200, Rows 1 [ana_row])"
    by (simp_all add: search_v3_def js_or_empty_def js_or_def truthy_def db_all_search_def
        column_like_def sql_like_def c_string_def two_db_def ana_row_def ben_row_def
        order_by_submitted_at_desc_def ascii_lower_examples)
  show "\<not> contains_literal ''B%.org'' (first_name ben_row)"
    "\<not> contains_literal ''B%.org'' (email ben_row)"
    by (simp_all add: ben_row_def contains_literal_def sublist_code prefix_code)
  show "\<not> contains_literal ''_na'' (first_name ana_row)"
    "\<not> contains_literal ''_na'' (email ana_row)"
    by (simp_all add: ana_row_def contains_literal_def sublist_code prefix_code)
qed

section \<open>CSV export\<close>

text \<open>
  The document is the header followed by one template line per row. Where the NOT NULL
  columns hold text (and, in variant 1, \<open>ip_address\<close> does), the template line is the
  record in the spec's words followed by a line feed, and it holds no other line feed when
  the row's texts hold none.
\<close>

lemma fold_append_lines: "fold (\<lambda>r csv. csv @ f r) rs h = h @ concat (map f rs)"
  by (induction rs arbitrary: h) simp_all

lemma js_or_empty_null_as_empty: "js_or_empty v = null_as_empty v"
  by (cases v) (simp_all add: js_or_empty_def js_or_def truthy_def null_as_empty_def)

lemma csv_line_v1_record:
  assumes "first_name r \<noteq> None" "email r \<noteq> None" "ip_address r \<noteq> None"
  shows "csv_line_v1 r = csv_record_v1 r @ [LF]"
  using assms
  by (auto simp: csv_line_v1_def csv_record_v1_def text_columns_v1_def js_or_empty_null_as_empty
      js_template_def null_as_empty_def)

lemma csv_line_v3_record:
  assumes "first_name r \<noteq> None" "email r \<noteq> None"
  shows "csv_line_v3 r = csv_record_v3 r @ [LF]"
  using assms
  by (auto simp: csv_line_v3_def csv_record_v3_def text_columns_v3_def text_columns_v1_def
      js_or_empty_null_as_empty js_template_def null_as_empty_def)

lemma csv_lines_first:
  "LF \<notin> set l \<Longrightarrow> csv_lines (l @ LF # rest) = l # csv_lines rest"
  by (induction l) (auto split: list.splits)

lemma csv_lines_concat:
  "\<forall>l \<in> set ls. LF \<notin> set l \<Longrightarrow> csv_lines (concat (map (\<lambda>l. l @ [LF]) ls)) = ls"
proof (induction ls)
  case Nil
  show ?case by simp
next
  case (Cons l ls)
  then have "csv_lines (l @ LF # concat (map (\<lambda>l. l @ [LF]) ls)) =
      l # csv_lines (concat (map (\<lambda>l. l @ [LF]) ls))"
    by (simp add: csv_lines_first)
  then show ?case using Cons by simp
qed

lemma digit_char_not_LF: "n < 10 \<Longrightarrow> digit_char n \<noteq> LF"
proof -
  assume "n < 10"
  then have "n \<in> {0, 1, 2, 3, 4, 5, 6, 7, 8, 9}" by auto
  then show ?thesis
    by (auto simp: digit_char_def LF_def)
qed

lemma show_nat_no_LF: "LF \<notin> set (show_nat n)"
proof (induction n rule: show_nat.induct)
  case (1 n)
  show ?case
  proof (cases "n < 10")
    case True
    then show ?thesis
      using digit_char_not_LF [of n] by (simp add: show_nat.simps [of n])
  next
    case False
    then show ?thesis
      using 1 digit_char_not_LF [of "n mod 10"] by (simp add: show_nat.simps [of n])
  qed
qed

lemma show_int_no_LF: "LF \<notin> set (show_int i)"
  using show_nat_no_LF by (simp add: show_int_def LF_def)

lemma join_commas_no_LF:
  "\<forall>x \<in> set xs. LF \<notin> set x \<Longrightarrow> LF \<notin> set (join_commas xs)"
  by (induction xs rule: join_commas.induct) (auto simp: LF_def)

lemma quoted_no_LF: "LF \<notin> set s \<Longrightarrow> LF \<notin> set (quoted s)"
  by (simp add: quoted_def LF_def)

lemma csv_record_v3_no_LF:
  assumes "\<forall>f \<in> set (text_columns_v3 r). LF \<notin> set f"
  shows "LF \<notin> set (csv_record_v3 r)"
  unfolding csv_record_v3_def
  by (rule join_commas_no_LF) (use assms show_int_no_LF quoted_no_LF in auto)

lemma csv_record_v1_no_LF:
  assumes "\<forall>f \<in> set (text_columns_v1 r). LF \<notin> set f"
  shows "LF \<notin> set (csv_record_v1 r)"
  unfolding csv_record_v1_def
  by (rule join_commas_no_LF) (use assms show_int_no_LF quoted_no_LF in auto)

lemma csv_header_v1_titles: "csv_header_v1 = join_commas column_titles_v1 @ [LF]"
  by (simp add: csv_header_v1_def column_titles_v1_def)

lemma csv_header_v3_titles: "csv_header_v3 = join_commas column_titles_v3 @ [LF]"
  by (simp add: csv_header_v3_def column_titles_v3_def column_titles_v1_def)

lemma titles_no_LF:
  "LF \<notin> set (join_commas column_titles_v1)" "LF \<notin> set (join_commas column_titles_v3)"
  by (simp_all add: column_titles_v3_def column_titles_v1_def LF_def)

lemma csv_record_v1_truncate: "csv_record_v1 (listed_row.truncate r) = csv_record_v1 r"
  by (simp add: csv_record_v1_def text_columns_v1_def listed_row.truncate_def)


lemma order_desc_set: "set (order_by_submitted_at_desc rs) = set rs"
  by (simp add: order_by_submitted_at_desc_def)

lemma export_v3_lines:
  assumes "\<forall>r \<in> set (responses d). first_name r \<noteq> None \<and> email r \<noteq> None \<and>
             (\<forall>f \<in> set (text_columns_v3 r). LF \<notin> set f)"
  shows "export_csv_v3 False d =
           (200, Csv (join_commas column_titles_v3 @ LF #
                      concat (map (\<lambda>l. l @ [LF])
                        (map csv_record_v3 (order_by_submitted_at_desc (responses d))))))"
    and "csv_lines (join_commas column_titles_v3 @ LF #
                      concat (map (\<lambda>l. l @ [LF])
                        (map csv_record_v3 (order_by_submitted_at_desc (responses d))))) =
           join_commas column_titles_v3 #
             map csv_record_v3 (order_by_submitted_at_desc (responses d))"
proof -
  let ?rows = "order_by_submitted_at_desc (responses d)"
  have ok: "\<forall>r \<in> set ?rows. first_name r \<noteq> None \<and> email r \<noteq> None \<and>
             (\<forall>f \<in> set (text_columns_v3 r). LF \<notin> set f)"
    using assms by (simp add: order_desc_set)
  have "map csv_line_v3 ?rows = map (\<lambda>l. l @ [LF]) (map csv_record_v3 ?rows)"
    using ok by (simp add: csv_line_v3_record)
  then have c: "concat (map csv_line_v3 ?rows) =
      concat (map (\<lambda>l. l @ [LF]) (map csv_record_v3 ?rows))"
    by (rule arg_cong)
  show "export_csv_v3 False d =
           (200, Csv (join_commas column_titles_v3 @ LF #
                      concat (map (\<lambda>l. l @ [LF]) (map csv_record_v3 ?rows))))"
    by (simp add: export_csv_v3_def db_all_ordered_def fold_append_lines csv_header_v3_titles c)
  have "\<forall>l \<in> set (map csv_record_v3 ?rows). LF \<notin> set l"
    using ok by (auto intro!: csv_record_v3_no_LF)
  then show "csv_lines (join_commas column_titles_v3 @ LF #
                      concat (map (\<lambda>l. l @ [LF]) (map csv_record_v3 ?rows))) =
           join_commas column_titles_v3 # map csv_record_v3 ?rows"
    by (simp only: csv_lines_first [OF titles_no_LF(2)] csv_lines_concat)
qed

lemma export_v1_lines:
  assumes "\<forall>r \<in> set (responses d). first_name r \<noteq> None \<and> email r \<noteq> None \<and>
             ip_address r \<noteq> None \<and> (\<forall>f \<in> set (text_columns_v1 r). LF \<notin> set f)"
  shows "export_csv_v1 False d =
           (200, Csv (join_commas column_titles_v1 @ LF #
                      concat (map (\<lambda>l. l @ [LF])
                        (map csv_record_v1 (order_by_submitted_at_desc (responses d))))))"
    and "csv_lines (join_commas column_titles_v1 @ LF #
                      concat (map (\<lambda>l. l @ [LF])
                        (map csv_record_v1 (order_by_submitted_at_desc (responses d))))) =
           join_commas column_titles_v1 #
             map csv_record_v1 (order_by_submitted_at_desc (responses d))"
proof -
  let ?rows = "order_by_submitted_at_desc (responses d)"
  have ok: "\<forall>r \<in> set ?rows. first_name r \<noteq> None \<and> email r \<noteq> None \<and>
             ip_address r \<noteq> None \<and> (\<forall>f \<in> set (text_columns_v1 r). LF \<notin> set f)"
    using assms by (simp add: order_desc_set)
  have "map csv_line_v1 ?rows = map (\<lambda>l. l @ [LF]) (map csv_record_v1 ?rows)"
    using ok by (simp add: csv_line_v1_record)
  then have c: "concat (map csv_line_v1 ?rows) =
      concat (map (\<lambda>l. l @ [LF]) (map csv_record_v1 ?rows))"
    by (rule arg_cong)
  show "export_csv_v1 False d =
           (200, Csv (join_commas column_titles_v1 @ LF #
                      concat (map (\<lambda>l. l @ [LF]) (map csv_record_v1 ?rows))))"
    by (simp add: export_csv_v1_def db_all_ordered_def fold_append_lines csv_header_v1_titles c)
  have "\<forall>l \<in> set (map csv_record_v1 ?rows). LF \<notin> set l"
    using ok by (auto intro!: csv_record_v1_no_LF)
  then show "csv_lines (join_commas column_titles_v1 @ LF #
                      concat (map (\<lambda>l. l @ [LF]) (map csv_record_v1 ?rows))) =
           join_commas column_titles_v1 # map csv_record_v1 ?rows"
    by (simp only: csv_lines_first [OF titles_no_LF(1)] csv_lines_concat)
qed

text \<open>
  C3, as the code has it. Take a table in whose rows \<open>first_name\<close> and \<open>email\<close> are not
  NULL and no text holds a line feed. The export of variant 3 is then, line by line, the
  titles of the eleven columns followed by one record for each row of the listing, which
  holds every row of the table, in the listing's order (descending \<open>submitted_at\<close>); a
  record is the key in decimal, not quoted,
  followed by the ten text columns, each enclosed in double quotes as it is, NULL as the
  empty string. Where \<open>ip_address\<close> is not NULL either, the export of variant 1 is the same
  with its ten titles and ten columns (no \<open>user_agent\<close>), a record for each row of its
  listing.
\<close>

theorem export_csv_one_line_per_row:
  assumes "\<forall>r \<in> set (responses d). first_name r \<noteq> None \<and> email r \<noteq> None \<and>
             (\<forall>f \<in> set (text_columns_v3 r). LF \<notin> set f)"
  shows "(\<exists>doc L. export_csv_v3 False d = (200, Csv doc) \<and>
            list_responses_v3 False d = (200, Rows (length L) L) \<and>
            mset L = mset (responses d) \<and>
            sorted_wrt (\<lambda>a b. submitted_at b \<le> submitted_at a) L \<and>
            csv_lines doc = join_commas column_titles_v3 # map csv_record_v3 L) \<and>
         ((\<forall>r \<in> set (responses d). ip_address r \<noteq> None) \<longrightarrow>
          (\<exists>doc L. export_csv_v1 False d = (200, Csv doc) \<and>
            list_responses_v1 False d = (200, Listing (length L) L) \<and>
            mset L = mset (map listed_row.truncate (responses d)) \<and>
            sorted_wrt (\<lambda>a b. submitted_at b \<le> submitted_at a) L \<and>
            csv_lines doc = join_commas column_titles_v1 # map csv_record_v1 L))"
proof (intro conjI impI)
  let ?rows = "order_by_submitted_at_desc (responses d)"
  have "list_responses_v3 False d = (200, Rows (length ?rows) ?rows)"
    by (simp add: list_responses_v3_def db_all_ordered_def)
  then show "\<exists>doc L. export_csv_v3 False d = (200, Csv doc) \<and>
            list_responses_v3 False d = (200, Rows (length L) L) \<and>
            mset L = mset (responses d) \<and>
            sorted_wrt (\<lambda>a b. submitted_at b \<le> submitted_at a) L \<and>
            csv_lines doc = join_commas column_titles_v3 # map csv_record_v3 L"
    using export_v3_lines [OF assms] order_desc_sorted [of "responses d"]
      order_desc_mset [of "responses d"] by blast
next
  let ?rows = "order_by_submitted_at_desc (responses d)"
  let ?L = "map listed_row.truncate ?rows"
  assume ip: "\<forall>r \<in> set (responses d). ip_address r \<noteq> None"
  have a: "\<forall>r \<in> set (responses d). first_name r \<noteq> None \<and> email r \<noteq> None \<and>
             ip_address r \<noteq> None \<and> (\<forall>f \<in> set (text_columns_v1 r). LF \<notin> set f)"
    using assms ip by (simp add: text_columns_v3_def)
  have l: "list_responses_v1 False d = (200, Listing (length ?L) ?L)"
    by (simp add: list_responses_v1_def db_all_listed_def)
  have s: "sorted_wrt (\<lambda>a b. submitted_at b \<le> submitted_at a) ?L"
    using order_desc_sorted [of "responses d"] by (simp add: sorted_wrt_map)
  have m: "map csv_record_v1 ?L = map csv_record_v1 ?rows"
    by (simp add: csv_record_v1_truncate)
  have p: "mset ?L = mset (map listed_row.truncate (responses d))"
    by (simp add: order_desc_mset)
  show "\<exists>doc L. export_csv_v1 False d = (200, Csv doc) \<and>
            list_responses_v1 False d = (200, Listing (length L) L) \<and>
            mset L = mset (map listed_row.truncate (responses d)) \<and>
            sorted_wrt (\<lambda>a b. submitted_at b \<le> submitted_at a) L \<and>
            csv_lines doc = join_commas column_titles_v1 # map csv_record_v1 L"
    using export_v1_lines [OF a] l s m p by metis
qed


lemma list_two_v3: "list_responses_v3 False two_db = (200, Rows 2 [ben_row, ana_row])"
  by (simp add: list_responses_v3_def db_all_ordered_def order_by_submitted_at_desc_def
      two_db_def ana_row_def ben_row_def)

lemma csv_record_ana:
  "csv_record_v3 ana_row =
     ''1,'' @ quoted ''Ana'' @ '','' @ quoted ''a@x.com'' @ '','' @ quoted [] @ '','' @
     quoted [] @ '','' @ quoted [] @ '','' @ quoted [] @ '','' @ quoted [] @ '','' @
     quoted ''2024-05-01 10:00:00'' @ '','' @ quoted ''10.0.0.7'' @ '','' @ quoted ''curl/8.5.0''"
  by (simp add: csv_record_v3_def text_columns_v3_def text_columns_v1_def null_as_empty_def
      ana_row_def show_int_def show_nat.simps digit_char_def)

theorem export_csv_one_line_per_row_witness:
  "list_responses_v3 False two_db = (200, Rows 2 [ben_row, ana_row]) \<and>
   (\<exists>doc. export_csv_v3 False two_db = (200, Csv doc) \<and>
      csv_lines doc =
        [join_commas column_titles_v3, csv_record_v3 ben_row, csv_record_v3 ana_row]) \<and>
   list_responses_v1 False two_db =
     (200, Listing 2 [listed_row.truncate ben_row, listed_row.truncate ana_row]) \<and>
   (\<exists>doc. export_csv_v1 False two_db = (200, Csv doc) \<and>
      csv_lines doc =
        [join_commas column_titles_v1, csv_record_v1 (listed_row.truncate ben_row),
         csv_record_v1 (listed_row.truncate ana_row)])"
proof -
  have h: "\<forall>r \<in> set (responses two_db). first_name r \<noteq> None \<and> email r \<noteq> None \<and>
             (\<forall>f \<in> set (text_columns_v3 r). LF \<notin> set f)"
    by (simp add: two_db_def ana_row_def ben_row_def text_columns_v3_def text_columns_v1_def
        null_as_empty_def LF_def)
  have ip: "\<forall>r \<in> set (responses two_db). ip_address r \<noteq> None"
    by (simp add: two_db_def ana_row_def ben_row_def)
  note t = export_csv_one_line_per_row [OF h]
  from t obtain doc3 L3 where
    d3: "export_csv_v3 False two_db = (200, Csv doc3)"
      "list_responses_v3 False two_db = (200, Rows (length L3) L3)"
      "csv_lines doc3 = join_commas column_titles_v3 # map csv_record_v3 L3"
    by blast
  from t ip obtain doc1 L1 where
    d1: "export_csv_v1 False two_db = (200, Csv doc1)"
      "list_responses_v1 False two_db = (200, Listing (length L1) L1)"
      "csv_lines doc1 = join_commas column_titles_v1 # map csv_record_v1 L1"
    by blast
  from d3(2) have "L3 = [ben_row, ana_row]"
    by (simp add: list_two_v3)
  moreover from d1(2) have "L1 = [listed_row.truncate ben_row, listed_row.truncate ana_row]"
    by (simp add: list_two)
  ultimately show ?thesis
    using d3 d1 by (simp add: list_two_v3 list_two)
qed

text \<open>
  C3 as stated fails: the key is not enclosed in quotes, and a row whose name holds a line
  feed is listed once but takes two lines of the export, in both variants.
\<close>

theorem export_csv_line_feed_counterexample:
  "list_responses_v1 False eva_db = (200, Listing 1 [listed_row.truncate eva_row]) \<and>
   export_csv_v1 False eva_db = (200, Csv (csv_header_v1 @ csv_line_v1 eva_row)) \<and>
   csv_lines (csv_header_v1 @ csv_line_v1 eva_row) =
     [join_commas column_titles_v1,
      ''1,'' @ [CHR 0x22] @ ''Eva'',
      ''Lee'' @ [CHR 0x22] @ '','' @ quoted ''e@x.com'' @ '','' @ quoted [] @ '','' @
      quoted [] @ '','' @ quoted [] @ '','' @ quoted [] @ '','' @ quoted [] @ '','' @
      quoted ''2024-05-01 10:00:00'' @ '','' @ quoted ''10.0.0.7''] \<and>
   export_csv_v3 False eva_db = (200, Csv (csv_header_v3 @ csv_line_v3 eva_row)) \<and>
   length (csv_lines (csv_header_v3 @ csv_line_v3 eva_row)) = 3"
proof (intro conjI)
  show "list_responses_v1 False eva_db = (200, Listing 1 [listed_row.truncate eva_row])"
    by (simp add: list_responses_v1_def db_all_listed_def order_by_submitted_at_desc_def
        eva_db_def)
  show "export_csv_v1 False eva_db = (200, Csv (csv_header_v1 @ csv_line_v1 eva_row))"
    by (simp add: export_csv_v1_def db_all_ordered_def order_by_submitted_at_desc_def eva_db_def)
  show "export_csv_v3 False eva_db = (200, Csv (csv_header_v3 @ csv_line_v3 eva_row))"
    by (simp add: export_csv_v3_def db_all_ordered_def order_by_submitted_at_desc_def eva_db_def)
  have l1: "csv_line_v1 eva_row =
      (''1,'' @ [CHR 0x22] @ ''Eva'') @ LF #
      (''Lee'' @ [CHR 0x22] @ '','' @ quoted ''e@x.com'' @ '','' @ quoted [] @ '','' @
      quoted [] @ '','' @ quoted [] @ '','' @ quoted [] @ '','' @ quoted [] @ '','' @
      quoted ''2024-05-01 10:00:00'' @ '','' @ quoted ''10.0.0.7'') @ [LF]"
    by (simp add: csv_line_v1_def eva_row_def show_int_def show_nat.simps digit_char_def
        quoted_def js_template_def js_or_empty_def js_or_def truthy_def)
  have n1: "LF \<notin> set (''1,'' @ [CHR 0x22] @ ''Eva'')"
    and n2: "LF \<notin> set (''Lee'' @ [CHR 0x22] @ '','' @ quoted ''e@x.com'' @ '','' @ quoted [] @ '','' @
      quoted [] @ '','' @ quoted [] @ '','' @ quoted [] @ '','' @ quoted [] @ '','' @
      quoted ''2024-05-01 10:00:00'' @ '','' @ quoted ''10.0.0.7'')"
    by (simp_all add: LF_def quoted_def)
  show "csv_lines (csv_header_v1 @ csv_line_v1 eva_row) =
     [join_commas column_titles_v1,
      ''1,'' @ [CHR 0x22] @ ''Eva'',
      ''Lee'' @ [CHR 0x22] @ '','' @ quoted ''e@x.com'' @ '','' @ quoted [] @ '','' @
      quoted [] @ '','' @ quoted [] @ '','' @ quoted [] @ '','' @ quoted [] @ '','' @
      quoted ''2024-05-01 10:00:00'' @ '','' @ quoted ''10.0.0.7'']"
    unfolding l1 csv_header_v1_titles
    using csv_lines_first [OF titles_no_LF(1)] csv_lines_first [OF n1] csv_lines_first [OF n2, of "[]"]
    by simp
  have l3: "csv_line_v3 eva_row =
      (''1,'' @ [CHR 0x22] @ ''Eva'') @ LF #
      (''Lee'' @ [CHR 0x22] @ '','' @ quoted ''e@x.com'' @ '','' @ quoted [] @ '','' @
      quoted [] @ '','' @ quoted [] @ '','' @ quoted [] @ '','' @ quoted [] @ '','' @
      quoted ''2024-05-01 10:00:00'' @ '','' @ quoted ''10.0.0.7'') @ '','' @ quoted [] @ [LF]"
    by (simp add: csv_line_v3_def eva_row_def show_int_def show_nat.simps digit_char_def
        quoted_def js_template_def js_or_empty_def js_or_def truthy_def)
  have n3: "LF \<notin> set ((''Lee'' @ [CHR 0x22] @ '','' @ quoted ''e@x.com'' @ '','' @ quoted [] @ '','' @
      quoted [] @ '','' @ quoted [] @ '','' @ quoted [] @ '','' @ quoted [] @ '','' @
      quoted ''2024-05-01 10:00:00'' @ '','' @ quoted ''10.0.0.7'') @ '','' @ quoted [])"
    by (simp add: LF_def quoted_def)
  show "length (csv_lines (csv_header_v3 @ csv_line_v3 eva_row)) = 3"
    unfolding l3 csv_header_v3_titles
    using csv_lines_first [OF titles_no_LF(2)] csv_lines_first [OF n1] csv_lines_first [OF n3, of "[]"]
    by simp
qed

end
